theory Spec2Isabelle
  imports Complex_Main "HOL-Library.Word" "HOL-Library.Sublist"
begin

section \<open>Data model: the tables of the migrations\<close>

text \<open>
  The embedding pipeline reads and writes a handful of tables. Each table is a list of
  rows in table order; a row is a record with the columns the pipeline touches. Columns
  that may be NULL are options. A column named \<open>id\<close> or \<open>contact_id\<close> in SQL carries a
  table prefix here, since several tables share those names. Text is a list of
  characters, one per UTF-16 code unit of the JavaScript string. The generated columns
  of \<open>contact_embeddings\<close> (its own \<open>id\<close>, \<open>created_at\<close>, \<open>updated_at\<close>) do not take part
  in any operation below and are left out.
\<close>

type_synonym uuid = string
type_synonym vector = "real list"
type_synonym timestamptz = int

record contact_row =
  c_id :: uuid
  c_user_id :: uuid
  first_name :: string
  last_name :: "string option"
  company :: "string option"
  job_title :: "string option"
  how_we_met :: "string option"
  deleted_at :: "timestamptz option"

text \<open>\<open>interests\<close> holds the text that the cast \<open>cm.interests::TEXT\<close> yields.\<close>

record contact_metadata_row =
  cm_contact_id :: uuid
  location :: "string option"
  interests :: "string option"

record note_row =
  n_contact_id :: uuid
  n_content :: string
  n_created_at :: timestamptz

record tag_row =
  t_id :: uuid
  t_name :: string

record contact_tag_row =
  ct_contact_id :: uuid
  ct_tag_id :: uuid

record contact_embedding_row =
  ce_contact_id :: uuid
  ce_user_id :: uuid
  embedding :: vector
  content_hash :: string
  source_text :: string
  model_version :: string

record database =
  contacts :: "contact_row list"
  contact_metadata :: "contact_metadata_row list"
  notes_table :: "note_row list"
  tags :: "tag_row list"
  contact_tags :: "contact_tag_row list"
  contact_embeddings :: "contact_embedding_row list"

text \<open>
  The constraints of the schema that the properties below rely on: \<open>contact_id\<close> is
  UNIQUE in \<open>contact_embeddings\<close>, \<open>id\<close> is the primary key of \<open>contacts\<close>, notes and
  contact tags reference an existing contact, and \<open>first_name\<close> is not blank
  (\<open>contact_has_name\<close>).
\<close>

definition unique_contact_id :: "contact_embedding_row list \<Rightarrow> bool" where
  "unique_contact_id tbl = distinct (map ce_contact_id tbl)"

definition contacts_pkey :: "database \<Rightarrow> bool" where
  "contacts_pkey db = distinct (map c_id (contacts db))"

definition references_contacts :: "database \<Rightarrow> bool" where
  "references_contacts db =
     (list_all (\<lambda>n. n_contact_id n \<in> set (map c_id (contacts db))) (notes_table db) \<and>
      list_all (\<lambda>ct. ct_contact_id ct \<in> set (map c_id (contacts db))) (contact_tags db))"

definition contact_has_name :: "database \<Rightarrow> bool" where
  "contact_has_name db = list_all (\<lambda>c. first_name c \<noteq> []) (contacts db)"

section \<open>Content composition: \<open>generate_embedding_content\<close>\<close>

fun join_with :: "string \<Rightarrow> string list \<Rightarrow> string" where
  "join_with sep [] = []"
| "join_with sep [x] = x"
| "join_with sep (x # y # ys) = x @ sep @ join_with sep (y # ys)"

text \<open>\<open>CONCAT_WS\<close> skips NULL arguments (not empty ones) and never returns NULL.\<close>

definition concat_ws :: "string \<Rightarrow> string option list \<Rightarrow> string" where
  "concat_ws sep args = join_with sep (List.map_filter (\<lambda>a. a) args)"

text \<open>\<open>string_agg\<close> over no rows is NULL.\<close>

definition string_agg :: "string list \<Rightarrow> string \<Rightarrow> string option" where
  "string_agg vals sep = (if vals = [] then None else Some (join_with sep vals))"

text \<open>
  The three queries of the function, in order. The first is the LEFT JOIN of the contact
  with its metadata, of which \<open>SELECT INTO\<close> keeps the first row; a query that finds no
  contact leaves \<open>v_content\<close> NULL. Rows with equal \<open>created_at\<close> come in an order SQL
  leaves open; the model takes the stable one.
\<close>

definition contact_with_metadata ::
  "database \<Rightarrow> uuid \<Rightarrow> (contact_row \<times> contact_metadata_row option) list" where
  "contact_with_metadata db p_contact_id =
     concat (map (\<lambda>c. case filter (\<lambda>cm. cm_contact_id cm = c_id c) (contact_metadata db) of
                         [] \<Rightarrow> [(c, None)]
                       | cms \<Rightarrow> map (\<lambda>cm. (c, Some cm)) cms)
                 (filter (\<lambda>c. c_id c = p_contact_id) (contacts db)))"

definition recent_notes :: "database \<Rightarrow> uuid \<Rightarrow> string list" where
  "recent_notes db p_contact_id =
     map n_content
       (take 5 (rev (sort_key n_created_at
          (filter (\<lambda>n. n_contact_id n = p_contact_id) (notes_table db)))))"

definition tag_names :: "database \<Rightarrow> uuid \<Rightarrow> string list" where
  "tag_names db p_contact_id =
     concat (map (\<lambda>ct. map t_name (filter (\<lambda>t. t_id t = ct_tag_id ct) (tags db)))
                 (filter (\<lambda>ct. ct_contact_id ct = p_contact_id) (contact_tags db)))"

definition generate_embedding_content :: "database \<Rightarrow> uuid \<Rightarrow> string" where
  "generate_embedding_content db p_contact_id =
     (let v_content =
            (case contact_with_metadata db p_contact_id of
               [] \<Rightarrow> None
             | (c, cm) # _ \<Rightarrow>
                 Some (concat_ws '' ''
                   [Some (first_name c), last_name c, company c, job_title c, how_we_met c,
                    Option.bind cm location, Option.bind cm interests]));
          v_notes = string_agg (recent_notes db p_contact_id) '' '';
          v_tags = string_agg (tag_names db p_contact_id) '' ''
      in concat_ws '' '' [v_content, v_notes, v_tags])"

section \<open>The edge function \<open>generate-embeddings\<close>\<close>

subsection \<open>What the function calls\<close>

text \<open>
  The function reaches the outside through the Web Crypto digest, the HTTP request to
  the embedding provider and the store client. These are parameters. The store client
  hands back a result with a \<open>data\<close> and an \<open>error\<close> field instead of throwing; the
  function reads \<open>error\<close> only after the upsert, so a read that fails is seen as
  \<open>data = null\<close>.
\<close>

datatype fetch_result =
    FetchThrew string
  | Response bool string "string + vector"

text \<open>
  \<open>FetchThrew m\<close>: \<open>fetch\<close> threw an error with message \<open>m\<close>. \<open>Response ok statusText r\<close>:
  the response, with \<open>r\<close> what reading \<open>data.data[0].embedding\<close> off its JSON gives, the
  message of the error thrown or the vector.
\<close>

record upsert_values =
  up_contact_id :: uuid
  up_user_id :: uuid
  up_embedding :: vector
  up_content_hash :: string
  up_source_text :: string

record env =
  digest_sha256 :: "string \<Rightarrow> 8 word list"
  fetch_openai :: "string \<Rightarrow> fetch_result"
  getUser :: "string \<Rightarrow> uuid option"
  contacts_select_fails :: bool
  rpc_fails :: "uuid \<Rightarrow> bool"
  select_fails :: "uuid \<Rightarrow> bool"
  upsert_error :: "contact_embedding_row list \<Rightarrow> upsert_values \<Rightarrow> string option"
  cosine_distance :: "vector \<Rightarrow> vector \<Rightarrow> real"
  search_rpc_error :: "string option"

text \<open>
  \<open>digest_sha256\<close> is \<open>crypto.subtle.digest('SHA-256', \<dots>)\<close> on the encoded text, as bytes;
  \<open>fetch_openai\<close> the request to the provider for a text; \<open>getUser\<close> the user id that
  \<open>supabase.auth.getUser\<close> resolves a token to, if any. The next four say which store
  calls fail: the selection of the batch, the content read and the lookup for a contact
  id, and the upsert of given values into a given table, with its message.
  \<open>cosine_distance\<close> is the distance operator of the vector extension, and
  \<open>search_rpc_error\<close> the error of the search call when it does not reach the database.
\<close>

subsection \<open>\<open>generateHash\<close> and \<open>generateEmbedding\<close>\<close>

definition hex_digit :: "nat \<Rightarrow> char" where
  "hex_digit n = ''0123456789abcdef'' ! n"

text \<open>\<open>b.toString(16).padStart(2, '0')\<close> for a byte \<open>b\<close>.\<close>

definition hex_byte :: "8 word \<Rightarrow> string" where
  "hex_byte b = [hex_digit (unat b div 16), hex_digit (unat b mod 16)]"

definition generateHash :: "env \<Rightarrow> string \<Rightarrow> string" where
  "generateHash E content = concat (map hex_byte (digest_sha256 E content))"

text \<open>The result is \<open>Inl\<close> the message of the error thrown, or \<open>Inr\<close> the vector.\<close>

definition generateEmbedding :: "env \<Rightarrow> string \<Rightarrow> string + vector" where
  "generateEmbedding E text =
     (case fetch_openai E text of
        FetchThrew m \<Rightarrow> Inl m
      | Response ok statusText r \<Rightarrow>
          if \<not> ok then Inl (''OpenAI API error: '' @ statusText) else r)"

subsection \<open>The store calls of the loop\<close>

text \<open>The \<open>data\<close> of the RPC \<open>generate_embedding_content\<close>.\<close>

definition rpc_generate_embedding_content :: "env \<Rightarrow> database \<Rightarrow> uuid \<Rightarrow> string option" where
  "rpc_generate_embedding_content E db cid =
     (if rpc_fails E cid then None else Some (generate_embedding_content db cid))"

text \<open>
  The \<open>data\<close> of \<open>.select('id, content_hash').eq('contact_id', cid).single()\<close>: the row
  when exactly one matches, null otherwise.
\<close>

definition embedding_rows :: "contact_embedding_row list \<Rightarrow> uuid \<Rightarrow> contact_embedding_row list" where
  "embedding_rows tbl cid = filter (\<lambda>r. ce_contact_id r = cid) tbl"

definition select_existing ::
  "env \<Rightarrow> contact_embedding_row list \<Rightarrow> uuid \<Rightarrow> contact_embedding_row option" where
  "select_existing E tbl cid =
     (if select_fails E cid then None
      else case embedding_rows tbl cid of [r] \<Rightarrow> Some r | _ \<Rightarrow> None)"

text \<open>
  Modelled from the spec: the upsert of the store client, whose code is not part of the
  sources. It is insert-or-replace keyed by \<open>contact_id\<close>: a row of that contact takes
  the new values (its \<open>model_version\<close> stays), and without one a new row is added with
  the column default for \<open>model_version\<close>. Whether the store refuses the write, and with
  which message, is the parameter \<open>upsert_error\<close>; a refused write changes nothing.
\<close>

definition upsert ::
  "env \<Rightarrow> contact_embedding_row list \<Rightarrow> upsert_values \<Rightarrow> string + contact_embedding_row list" where
  "upsert E tbl v =
     (case upsert_error E tbl v of
        Some msg \<Rightarrow> Inl msg
      | None \<Rightarrow>
          Inr (if list_ex (\<lambda>r. ce_contact_id r = up_contact_id v) tbl
               then map (\<lambda>r. if ce_contact_id r = up_contact_id v
                              then r\<lparr>ce_user_id := up_user_id v, embedding := up_embedding v,
                                     content_hash := up_content_hash v,
                                     source_text := up_source_text v\<rparr>
                              else r) tbl
               else tbl @ [\<lparr>ce_contact_id = up_contact_id v, ce_user_id = up_user_id v,
                            embedding = up_embedding v, content_hash = up_content_hash v,
                            source_text = up_source_text v,
                            model_version = ''text-embedding-ada-002''\<rparr>]))"

subsection \<open>The loop over the contact ids\<close>

datatype call =
    RpcCompose uuid
  | SelectExisting uuid
  | Embed string
  | Upsert upsert_values

record results =
  processed :: nat
  created :: nat
  updated :: nat
  skipped :: nat
  errors :: "string list"

text \<open>
  The state of a run: the counters of \<open>results\<close>, the database, and the calls the loop
  has made to the store and to the provider, oldest first.
\<close>

record run_state = results +
  db :: database
  calls :: "call list"

definition called :: "call \<Rightarrow> 'a run_state_scheme \<Rightarrow> 'a run_state_scheme" where
  "called c s = s\<lparr>calls := calls s @ [c]\<rparr>"

text \<open>
  The body of the \<open>try\<close> block for one contact id. \<open>Inl (m, s)\<close>: an error with message
  \<open>m\<close> was thrown in state \<open>s\<close>; \<open>Inr s\<close>: the block ended (by \<open>continue\<close> or at its end)
  in state \<open>s\<close>.
\<close>

definition try_block ::
  "env \<Rightarrow> uuid \<Rightarrow> uuid \<Rightarrow> run_state \<Rightarrow> (string \<times> run_state) + run_state" where
  "try_block E userId cid s0 =
     (let s1 = called (RpcCompose cid) s0 in
      case rpc_generate_embedding_content E (db s1) cid of
        None \<Rightarrow> Inr (s1\<lparr>skipped := skipped s1 + 1\<rparr>)
      | Some content \<Rightarrow>
         (if content = [] then Inr (s1\<lparr>skipped := skipped s1 + 1\<rparr>)
          else
            let contentHash = generateHash E content;
                s2 = called (SelectExisting cid) s1;
                existing = select_existing E (contact_embeddings (db s2)) cid
            in if (case existing of None \<Rightarrow> False | Some r \<Rightarrow> content_hash r = contentHash)
               then Inr (s2\<lparr>skipped := skipped s2 + 1\<rparr>)
               else
                 let s3 = called (Embed content) s2 in
                 (case generateEmbedding E content of
                    Inl m \<Rightarrow> Inl (m, s3)
                  | Inr vec \<Rightarrow>
                     (let v = \<lparr>up_contact_id = cid, up_user_id = userId, up_embedding = vec,
                               up_content_hash = contentHash,
                               up_source_text = take 500 content\<rparr>;
                          s4 = called (Upsert v) s3
                      in (case upsert E (contact_embeddings (db s4)) v of
                            Inl m \<Rightarrow> Inr (s4\<lparr>errors := errors s4 @ [cid @ '': '' @ m]\<rparr>)
                          | Inr tbl \<Rightarrow>
                             (let s5 = s4\<lparr>db := (db s4)\<lparr>contact_embeddings := tbl\<rparr>\<rparr>;
                                  s6 = (if existing \<noteq> None
                                        then s5\<lparr>updated := updated s5 + 1\<rparr>
                                        else s5\<lparr>created := created s5 + 1\<rparr>)
                              in Inr (s6\<lparr>processed := processed s6 + 1\<rparr>)))))))"

text \<open>One turn of the loop: the \<open>try\<close> block and its \<open>catch\<close>.\<close>

definition loop_body :: "env \<Rightarrow> uuid \<Rightarrow> uuid \<Rightarrow> run_state \<Rightarrow> run_state" where
  "loop_body E userId cid s =
     (case try_block E userId cid s of
        Inl (m, s') \<Rightarrow> s'\<lparr>errors := errors s' @ [cid @ '': '' @ m]\<rparr>
      | Inr s' \<Rightarrow> s')"

definition process_contacts :: "env \<Rightarrow> uuid \<Rightarrow> uuid list \<Rightarrow> run_state \<Rightarrow> run_state" where
  "process_contacts E userId contactIds s = fold (loop_body E userId) contactIds s"

definition initial_state :: "database \<Rightarrow> run_state" where
  "initial_state d =
     \<lparr>processed = 0, created = 0, updated = 0, skipped = 0, errors = [], db = d, calls = []\<rparr>"

subsection \<open>The request handler\<close>

text \<open>
  A request with its body as \<open>req.json()\<close> reads it: \<open>Inl\<close> the message of the error it
  throws, or \<open>Inr\<close> the fields. A field that is absent is \<open>None\<close>. When present, the
  contact id is a string and the batch size is a row count.
\<close>

record 'b request =
  req_method :: string
  authorization :: "string option"
  json :: "string + 'b"

record embeddings_body =
  contactId :: "string option"
  batchSize :: "nat option"

text \<open>A row of the query of \<open>find_similar_contacts\<close>.\<close>

record similar_contact =
  m_contact_id :: uuid
  similarity :: real
  m_first_name :: string
  m_last_name :: "string option"
  m_company :: "string option"
  m_job_title :: "string option"

datatype response_body =
    ErrorBody string
  | EmbeddingsBody results
  | SearchBody string "similar_contact list" nat

record response =
  status :: nat
  body :: response_body

text \<open>\<open>s.replace(pat, rep)\<close> with a string pattern: the first occurrence only.\<close>

fun replace_first :: "string \<Rightarrow> string \<Rightarrow> string \<Rightarrow> string" where
  "replace_first pat rep [] = (if pat = [] then rep else [])"
| "replace_first pat rep (c # cs) =
     (if prefix pat (c # cs) then rep @ drop (length pat) (c # cs)
      else c # replace_first pat rep cs)"

text \<open>
  \<open>req.headers.get('Authorization')\<close> as the test \<open>!authHeader\<close> sees it: an empty header
  counts as none.
\<close>

definition header_value :: "string option \<Rightarrow> string option" where
  "header_value h = (case h of None \<Rightarrow> None | Some v \<Rightarrow> if v = [] then None else Some v)"

text \<open>\<open>error.message || 'Internal server error'\<close>\<close>

definition message_or_default :: "string \<Rightarrow> string" where
  "message_or_default m = (if m = [] then ''Internal server error'' else m)"

text \<open>The ids the loop runs over: the one given, or the batch selected for the caller.\<close>

definition select_contactIds :: "env \<Rightarrow> database \<Rightarrow> uuid \<Rightarrow> embeddings_body \<Rightarrow> uuid list" where
  "select_contactIds E d userId b =
     (case contactId b of
        Some cid \<Rightarrow> if cid \<noteq> [] then [cid] else
          (if contacts_select_fails E then []
           else map c_id (take (case batchSize b of None \<Rightarrow> 50 | Some n \<Rightarrow> n)
                  (filter (\<lambda>c. c_user_id c = userId \<and> deleted_at c = None) (contacts d))))
      | None \<Rightarrow>
          (if contacts_select_fails E then []
           else map c_id (take (case batchSize b of None \<Rightarrow> 50 | Some n \<Rightarrow> n)
                  (filter (\<lambda>c. c_user_id c = userId \<and> deleted_at c = None) (contacts d)))))"

definition serve_generate_embeddings ::
  "env \<Rightarrow> database \<Rightarrow> embeddings_body request \<Rightarrow> response \<times> database \<times> call list" where
  "serve_generate_embeddings E d req =
     (if req_method req \<noteq> ''POST''
      then (\<lparr>status = 405, body = ErrorBody ''Method not allowed''\<rparr>, d, [])
      else case header_value (authorization req) of
        None \<Rightarrow> (\<lparr>status = 401, body = ErrorBody ''Missing authorization''\<rparr>, d, [])
      | Some authHeader \<Rightarrow>
          (case getUser E (replace_first ''Bearer '' [] authHeader) of
             None \<Rightarrow> (\<lparr>status = 401, body = ErrorBody ''Unauthorized''\<rparr>, d, [])
           | Some userId \<Rightarrow>
               (case json req of
                  Inl m \<Rightarrow> (\<lparr>status = 500, body = ErrorBody (message_or_default m)\<rparr>, d, [])
                | Inr b \<Rightarrow>
                    let s = process_contacts E userId (select_contactIds E d userId b)
                              (initial_state d)
                    in (\<lparr>status = 200, body = EmbeddingsBody (results.truncate s)\<rparr>,
                        db s, calls s))))"

section \<open>Similarity search\<close>

subsection \<open>\<open>find_similar_contacts\<close>\<close>

text \<open>
  The operator \<open><=>\<close> of the vector extension is the parameter \<open>cosine_distance\<close>, with
  double precision read as real. The rows of the query before \<open>LIMIT\<close>: the join, the
  \<open>WHERE\<close> clause, and \<open>ORDER BY\<close> the distance, ascending. Rows at the same distance
  come in an order SQL leaves open; the model takes the stable one.
\<close>

definition similar_rows ::
  "env \<Rightarrow> database \<Rightarrow> uuid \<Rightarrow> vector \<Rightarrow> real \<Rightarrow> (contact_embedding_row \<times> contact_row) list" where
  "similar_rows E d p_user_id p_query_embedding p_similarity_threshold =
     sort_key (\<lambda>(ce, c). cosine_distance E (embedding ce) p_query_embedding)
       (filter (\<lambda>(ce, c). ce_user_id ce = p_user_id \<and> deleted_at c = None \<and>
                  1 - cosine_distance E (embedding ce) p_query_embedding
                    \<ge> p_similarity_threshold)
          (concat (map (\<lambda>ce. map (Pair ce) (filter (\<lambda>c. ce_contact_id ce = c_id c) (contacts d)))
                       (contact_embeddings d))))"

definition select_list :: "env \<Rightarrow> vector \<Rightarrow> contact_embedding_row \<times> contact_row \<Rightarrow> similar_contact" where
  "select_list E p_query_embedding row =
     (case row of (ce, c) \<Rightarrow>
        \<lparr>m_contact_id = c_id c,
         similarity = 1 - cosine_distance E (embedding ce) p_query_embedding,
         m_first_name = first_name c, m_last_name = last_name c,
         m_company = company c, m_job_title = job_title c\<rparr>)"

text \<open>The query with its \<open>LIMIT\<close>. A negative \<open>LIMIT\<close> is an error of the database.\<close>

definition similar_query ::
  "env \<Rightarrow> database \<Rightarrow> uuid \<Rightarrow> vector \<Rightarrow> int \<Rightarrow> real \<Rightarrow> string + similar_contact list" where
  "similar_query E d p_user_id p_query_embedding p_limit p_similarity_threshold =
     (if p_limit < 0 then Inl ''LIMIT must not be negative''
      else Inr (map (select_list E p_query_embedding)
                  (take (nat p_limit)
                     (similar_rows E d p_user_id p_query_embedding p_similarity_threshold))))"

text \<open>
  The function hands the query to \<open>RETURN QUERY\<close>, which does not coerce: the types of
  the query's columns must be the types that \<open>RETURNS TABLE\<close> declares, or the call
  raises before any row is returned. The declared columns are \<open>contact_id UUID\<close>,
  \<open>similarity NUMERIC\<close> and four \<open>TEXT\<close> columns. The query selects \<open>c.id\<close>, then
  \<open>1 - (ce.embedding <=> p_query_embedding)\<close>, which is double precision as the operator
  is, then four \<open>TEXT\<close> columns of \<open>contacts\<close>.
\<close>

datatype sql_type = UUID | NUMERIC | DOUBLE_PRECISION | TEXT

definition returns_table :: "sql_type list" where
  "returns_table = [UUID, NUMERIC, TEXT, TEXT, TEXT, TEXT]"

definition query_columns :: "sql_type list" where
  "query_columns = [UUID, DOUBLE_PRECISION, TEXT, TEXT, TEXT, TEXT]"

definition return_query ::
  "sql_type list \<Rightarrow> sql_type list \<Rightarrow> string + 'a list \<Rightarrow> string + 'a list" where
  "return_query declared selected rows =
     (if selected \<noteq> declared
      then Inl ''structure of query does not match function result type''
      else rows)"

definition find_similar_contacts ::
  "env \<Rightarrow> database \<Rightarrow> uuid \<Rightarrow> vector \<Rightarrow> int \<Rightarrow> real \<Rightarrow> string + similar_contact list" where
  "find_similar_contacts E d p_user_id p_query_embedding p_limit p_similarity_threshold =
     return_query returns_table query_columns
       (similar_query E d p_user_id p_query_embedding p_limit p_similarity_threshold)"

subsection \<open>The edge function \<open>semantic-search\<close>\<close>

text \<open>
  The \<open>query\<close> field of the body is any JSON value, or absent (\<open>Undefined\<close>); arrays and
  objects are \<open>Object\<close>, which is all the check looks at. \<open>limit\<close> and
  \<open>similarityThreshold\<close> are an integer and a number when present.
\<close>

datatype js_value = Undefined | Null | Boolean bool | Number real | String string | Object

definition falsy :: "js_value \<Rightarrow> bool" where
  "falsy v =
     (case v of
        Undefined \<Rightarrow> True
      | Null \<Rightarrow> True
      | Boolean b \<Rightarrow> \<not> b
      | Number x \<Rightarrow> x = 0
      | String s \<Rightarrow> s = []
      | Object \<Rightarrow> False)"

definition typeof :: "js_value \<Rightarrow> string" where
  "typeof v =
     (case v of
        Undefined \<Rightarrow> ''undefined''
      | Null \<Rightarrow> ''object''
      | Boolean b \<Rightarrow> ''boolean''
      | Number x \<Rightarrow> ''number''
      | String s \<Rightarrow> ''string''
      | Object \<Rightarrow> ''object'')"

definition string_value :: "js_value \<Rightarrow> string" where
  "string_value v = (case v of String s \<Rightarrow> s | _ \<Rightarrow> [])"

record search_body =
  query :: js_value
  limit :: "int option"
  similarityThreshold :: "real option"

text \<open>
  The handler returns the response and the texts it sent to the embedding provider,
  oldest first.
\<close>

definition serve_semantic_search ::
  "env \<Rightarrow> database \<Rightarrow> search_body request \<Rightarrow> response \<times> string list" where
  "serve_semantic_search E d req =
     (if req_method req \<noteq> ''POST''
      then (\<lparr>status = 405, body = ErrorBody ''Method not allowed''\<rparr>, [])
      else case header_value (authorization req) of
        None \<Rightarrow> (\<lparr>status = 401, body = ErrorBody ''Missing authorization''\<rparr>, [])
      | Some authHeader \<Rightarrow>
          (case getUser E (replace_first ''Bearer '' [] authHeader) of
             None \<Rightarrow> (\<lparr>status = 401, body = ErrorBody ''Unauthorized''\<rparr>, [])
           | Some userId \<Rightarrow>
               (case json req of
                  Inl m \<Rightarrow> (\<lparr>status = 500, body = ErrorBody (message_or_default m)\<rparr>, [])
                | Inr b \<Rightarrow>
                    if falsy (query b) \<or> typeof (query b) \<noteq> ''string''
                    then (\<lparr>status = 400, body = ErrorBody ''Query is required''\<rparr>, [])
                    else
                      let q = string_value (query b) in
                      (case generateEmbedding E q of
                         Inl m \<Rightarrow>
                           (\<lparr>status = 500, body = ErrorBody (message_or_default m)\<rparr>, [q])
                       | Inr vec \<Rightarrow>
                          (case (case search_rpc_error E of
                                   Some m \<Rightarrow> Inl m
                                 | None \<Rightarrow>
                                     find_similar_contacts E d userId vec
                                       (case limit b of None \<Rightarrow> 10 | Some n \<Rightarrow> n)
                                       (case similarityThreshold b of
                                          None \<Rightarrow> 7 / 10 | Some t \<Rightarrow> t)) of
                             Inl m \<Rightarrow>
                               (\<lparr>status = 500, body = ErrorBody (''Search error: '' @ m)\<rparr>, [q])
                           | Inr rs \<Rightarrow>
                               (\<lparr>status = 200, body = SearchBody q rs (length rs)\<rparr>, [q]))))))"

section \<open>Notions used in the statements\<close>

text \<open>
  A contact needs no embedding when its content cannot be read or is empty, or when the
  lookup returns a row that carries the hash of the content: the two \<open>continue\<close>
  branches of the loop.
\<close>

definition up_to_date :: "env \<Rightarrow> database \<Rightarrow> uuid \<Rightarrow> bool" where
  "up_to_date E d cid =
     (case rpc_generate_embedding_content E d cid of
        None \<Rightarrow> True
      | Some content \<Rightarrow>
          content = [] \<or>
          (case select_existing E (contact_embeddings d) cid of
             None \<Rightarrow> False
           | Some r \<Rightarrow> content_hash r = generateHash E content))"

text \<open>The object the loop hands to the upsert for a contact, its content and its vector.\<close>

definition upsert_object :: "env \<Rightarrow> uuid \<Rightarrow> uuid \<Rightarrow> string \<Rightarrow> vector \<Rightarrow> upsert_values" where
  "upsert_object E userId cid content vec =
     \<lparr>up_contact_id = cid, up_user_id = userId, up_embedding = vec,
      up_content_hash = generateHash E content, up_source_text = take 500 content\<rparr>"

text \<open>
  Content is stale when it is not empty and the lookup returns no row with its hash:
  the loop goes on to the provider.
\<close>

definition stale :: "env \<Rightarrow> database \<Rightarrow> uuid \<Rightarrow> string \<Rightarrow> bool" where
  "stale E d cid content =
     (content \<noteq> [] \<and>
      (case select_existing E (contact_embeddings d) cid of
         None \<Rightarrow> True
       | Some r \<Rightarrow> content_hash r \<noteq> generateHash E content))"

text \<open>The row that an accepted upsert leaves for its contact.\<close>

definition row_of :: "upsert_values \<Rightarrow> string \<Rightarrow> contact_embedding_row" where
  "row_of v mv =
     \<lparr>ce_contact_id = up_contact_id v, ce_user_id = up_user_id v,
      embedding = up_embedding v, content_hash = up_content_hash v,
      source_text = up_source_text v, model_version = mv\<rparr>"

text \<open>
  A sequence of upserts, each on the table the one before left. The second component
  is the last upsert the store accepted, if any.
\<close>

fun upserts ::
  "env \<Rightarrow> upsert_values list \<Rightarrow> contact_embedding_row list \<times> upsert_values option \<Rightarrow>
   contact_embedding_row list \<times> upsert_values option" where
  "upserts E [] st = st"
| "upserts E (v # vs) (tbl, last_accepted) =
     (case upsert E tbl v of
        Inl m \<Rightarrow> upserts E vs (tbl, last_accepted)
      | Inr tbl' \<Rightarrow> upserts E vs (tbl', Some v))"

subsection \<open>A small database and environment\<close>

text \<open>
  Seven contacts: five of user \<open>u1\<close>, one of user \<open>u2\<close>, and one of \<open>u1\<close> that is
  soft-deleted. The stand-in digest is the bytes of the text; the stand-in provider
  refuses the text \<open>Cy\<close> and answers any other with a one-component vector; the stand-in
  distance is the gap between first components.
\<close>

definition demo_contact :: "uuid \<Rightarrow> uuid \<Rightarrow> string \<Rightarrow> contact_row" where
  "demo_contact i u n =
     \<lparr>c_id = i, c_user_id = u, first_name = n, last_name = None, company = None,
      job_title = None, how_we_met = None, deleted_at = None\<rparr>"

definition demo_db :: database where
  "demo_db =
     \<lparr>contacts =
        [demo_contact ''c1'' ''u1'' ''Al'', demo_contact ''c2'' ''u1'' ''Bo'',
         demo_contact ''c3'' ''u1'' ''Cy'', demo_contact ''c4'' ''u1'' ''Di'',
         demo_contact ''c5'' ''u1'' ''Ed'', demo_contact ''c6'' ''u2'' ''Zed'',
         (demo_contact ''c7'' ''u1'' ''Old'')\<lparr>deleted_at := Some 5\<rparr>],
      contact_metadata = [],
      notes_table = [\<lparr>n_contact_id = ''c1'', n_content = ''met at x'', n_created_at = 3\<rparr>],
      tags = [], contact_tags = [], contact_embeddings = []\<rparr>"

definition demo_env :: env where
  "demo_env =
     \<lparr>digest_sha256 = (\<lambda>s. map (\<lambda>c. of_nat (of_char c)) s),
      fetch_openai = (\<lambda>t. if t = ''Cy'' then Response False ''Too Many Requests'' (Inl [])
                           else Response True ''OK'' (Inr [real (length t)])),
      getUser = (\<lambda>jwt. if jwt = ''t1'' then Some ''u1''
                        else if jwt = ''t2'' then Some ''u2'' else None),
      contacts_select_fails = False,
      rpc_fails = (\<lambda>c. False),
      select_fails = (\<lambda>c. False),
      upsert_error = (\<lambda>tbl v. None),
      cosine_distance = (\<lambda>v q. \<bar>hd v - hd q\<bar>),
      search_rpc_error = None\<rparr>"

definition demo_ids :: "uuid list" where
  "demo_ids = [''c1'', ''c2'', ''c3'', ''c4'', ''c5'']"

text \<open>Three upserts for contact \<open>c1\<close>, and a store that refuses the hash \<open>xx\<close>.\<close>

definition demo_upsert :: "vector \<Rightarrow> string \<Rightarrow> string \<Rightarrow> upsert_values" where
  "demo_upsert vec h t =
     \<lparr>up_contact_id = ''c1'', up_user_id = ''u1'', up_embedding = vec,
      up_content_hash = h, up_source_text = t\<rparr>"

definition strict_env :: env where
  "strict_env =
     demo_env\<lparr>upsert_error :=
       (\<lambda>tbl v. if up_content_hash v = ''xx'' then Some ''refused'' else None)\<rparr>"

text \<open>A store client whose read of the content of \<open>c3\<close> fails.\<close>

definition flaky_env :: env where
  "flaky_env = demo_env\<lparr>rpc_fails := (\<lambda>c. c = ''c3'')\<rparr>"

text \<open>The database with the embedding of \<open>c1\<close> already stored under the hash of its content.\<close>

definition embedded_db :: database where
  "embedded_db =
     demo_db\<lparr>contact_embeddings :=
       [\<lparr>ce_contact_id = ''c1'', ce_user_id = ''u1'', embedding = [11],
         content_hash = ''416c206d65742061742078'', source_text = ''Al met at x'',
         model_version = ''text-embedding-ada-002''\<rparr>]\<rparr>"

text \<open>
  The upsert of the loop names no conflict column, so a write for a contact that has a
  row already is an insert, which the UNIQUE constraint on \<open>contact_id\<close> refuses. The
  message stands for the one of the database, which also names the constraint.
\<close>

definition duplicate_key :: "contact_embedding_row list \<Rightarrow> upsert_values \<Rightarrow> string option" where
  "duplicate_key tbl v =
     (if list_ex (\<lambda>r. ce_contact_id r = up_contact_id v) tbl
      then Some ''duplicate key value violates unique constraint''
      else None)"

text \<open>A store that refuses such writes, and whose lookup of the embedding of \<open>c1\<close> fails.\<close>

definition blind_env :: env where
  "blind_env = demo_env\<lparr>select_fails := (\<lambda>c. c = ''c1''), upsert_error := duplicate_key\<rparr>"


text \<open>Requests of the caller with token \<open>t1\<close> (user \<open>u1\<close>) or another token.\<close>

definition demo_search :: "js_value \<Rightarrow> search_body request" where
  "demo_search q =
     \<lparr>req_method = ''POST'', authorization = Some ''Bearer t1'',
      json = Inr \<lparr>query = q, limit = None, similarityThreshold = None\<rparr>\<rparr>"

definition demo_embed :: "string option \<Rightarrow> string \<Rightarrow> embeddings_body request" where
  "demo_embed cid token =
     \<lparr>req_method = ''POST'', authorization = Some (''Bearer '' @ token),
      json = Inr \<lparr>contactId = cid, batchSize = None\<rparr>\<rparr>"

section \<open>The store: one row per contact\<close>

lemma content_ignores_embeddings [simp]:
  "generate_embedding_content (d\<lparr>contact_embeddings := t\<rparr>) cid = generate_embedding_content d cid"
  by (simp add: generate_embedding_content_def contact_with_metadata_def recent_notes_def tag_names_def)

lemma rpc_ignores_embeddings [simp]:
  "rpc_generate_embedding_content E (d\<lparr>contact_embeddings := t\<rparr>) cid = rpc_generate_embedding_content E d cid"
  by (simp add: rpc_generate_embedding_content_def)

lemma upsert_refused: "upsert E tbl v = Inl m \<longleftrightarrow> upsert_error E tbl v = Some m"
  by (simp add: upsert_def split: option.split)

lemma embedding_rows_upsert_other:
  assumes "upsert E tbl v = Inr tbl'" "cid \<noteq> up_contact_id v"
  shows "embedding_rows tbl' cid = embedding_rows tbl cid"
proof -
  have "filter (\<lambda>r. ce_contact_id r = cid)
          (map (\<lambda>r. if ce_contact_id r = up_contact_id v then f r else r) t)
        = filter (\<lambda>r. ce_contact_id r = cid) t"
    if "\<And>r. ce_contact_id (f r) = ce_contact_id r" for f and t :: "contact_embedding_row list"
    using that assms(2) by (induction t) auto
  with assms show ?thesis
    by (auto simp: upsert_def embedding_rows_def split: option.splits if_splits)
qed

lemma filter_key_distinct:
  "distinct (map k t) \<Longrightarrow> r \<in> set t \<Longrightarrow> filter (\<lambda>x. k x = k r) t = [r]"
proof (induction t)
  case Nil
  then show ?case by simp
next
  case (Cons a t)
  show ?case
  proof (cases "a = r")
    case True
    have "k r \<notin> k ` set t"
      using Cons.prems(1) True by simp
    then have "filter (\<lambda>x. k x = k r) t = []"
      by (auto simp: filter_empty_conv image_iff)
    with True show ?thesis by simp
  next
    case False
    with Cons.prems have "r \<in> set t" "k a \<noteq> k r" by force+
    with Cons show ?thesis by simp
  qed
qed

lemma embedding_rows_unique:
  "unique_contact_id tbl \<Longrightarrow> r \<in> set tbl \<Longrightarrow> embedding_rows tbl (ce_contact_id r) = [r]"
  unfolding unique_contact_id_def embedding_rows_def by (rule filter_key_distinct)

lemma embedding_rows_at_most_one:
  "unique_contact_id tbl \<Longrightarrow> length (embedding_rows tbl cid) \<le> 1"
proof (cases "embedding_rows tbl cid")
  case Nil
  then show ?thesis by simp
next
  case (Cons r rs)
  assume u: "unique_contact_id tbl"
  from Cons have "r \<in> set (embedding_rows tbl cid)" by simp
  then have "r \<in> set tbl" "ce_contact_id r = cid" by (auto simp: embedding_rows_def)
  with u have "embedding_rows tbl cid = [r]" using embedding_rows_unique by blast
  then show ?thesis by simp
qed

lemma upsert_keys:
  assumes "upsert E tbl v = Inr tbl'"
  shows "map ce_contact_id tbl' =
           (if list_ex (\<lambda>r. ce_contact_id r = up_contact_id v) tbl then map ce_contact_id tbl
            else map ce_contact_id tbl @ [up_contact_id v])"
proof -
  have "map ce_contact_id (map (\<lambda>r. if ce_contact_id r = c then f r else r) t) = map ce_contact_id t"
    if "\<And>r. ce_contact_id (f r) = ce_contact_id r" for f c and t :: "contact_embedding_row list"
    using that by (induction t) auto
  with assms show ?thesis
    by (auto simp: upsert_def split: option.splits if_splits)
qed

lemma unique_upsert:
  assumes "upsert E tbl v = Inr tbl'" "unique_contact_id tbl"
  shows "unique_contact_id tbl'"
  using assms(2) unfolding unique_contact_id_def upsert_keys [OF assms(1)]
  by (auto simp: list_ex_iff)

lemma embedding_rows_upsert_same:
  assumes "upsert E tbl v = Inr tbl'" "unique_contact_id tbl"
  shows "\<exists>mv. embedding_rows tbl' (up_contact_id v) = [row_of v mv]"
proof (cases "list_ex (\<lambda>r. ce_contact_id r = up_contact_id v) tbl")
  case True
  then obtain r0 where r0: "r0 \<in> set tbl" "ce_contact_id r0 = up_contact_id v"
    by (auto simp: list_ex_iff)
  let ?f = "\<lambda>r. r\<lparr>ce_user_id := up_user_id v, embedding := up_embedding v,
                   content_hash := up_content_hash v, source_text := up_source_text v\<rparr>"
  from assms(1) True have tbl': "tbl' = map (\<lambda>r. if ce_contact_id r = up_contact_id v then ?f r else r) tbl"
    by (auto simp: upsert_def split: option.splits)
  have "filter (\<lambda>r. ce_contact_id r = c) (map (\<lambda>r. if ce_contact_id r = c then ?f r else r) t)
        = map ?f (filter (\<lambda>r. ce_contact_id r = c) t)" for c and t :: "contact_embedding_row list"
    by (induction t) auto
  then have "embedding_rows tbl' (up_contact_id v) = map ?f (embedding_rows tbl (up_contact_id v))"
    by (simp add: tbl' embedding_rows_def)
  also have "embedding_rows tbl (up_contact_id v) = [r0]"
    using embedding_rows_unique [OF assms(2) r0(1)] r0(2) by simp
  finally have "embedding_rows tbl' (up_contact_id v) = [?f r0]" by simp
  moreover have "?f r0 = row_of v (model_version r0)"
    using r0(2) by (simp add: row_of_def)
  ultimately show ?thesis by metis
next
  case False
  then have "embedding_rows tbl (up_contact_id v) = []"
    by (auto simp: embedding_rows_def list_ex_iff filter_empty_conv)
  moreover from assms(1) False have "tbl' = tbl @ [\<lparr>ce_contact_id = up_contact_id v, ce_user_id = up_user_id v,
             embedding = up_embedding v, content_hash = up_content_hash v,
             source_text = up_source_text v, model_version = ''text-embedding-ada-002''\<rparr>]"
    by (auto simp: upsert_def split: option.splits)
  ultimately show ?thesis by (simp add: embedding_rows_def row_of_def)
qed

lemma upserts_invariant:
  assumes "unique_contact_id tbl"
      and "\<forall>v \<in> set vs. up_contact_id v = cid"
      and "case l0 of None \<Rightarrow> True | Some v \<Rightarrow> up_contact_id v = cid \<and> (\<exists>mv. embedding_rows tbl cid = [row_of v mv])"
      and "upserts E vs (tbl, l0) = (tbl', l)"
  shows "unique_contact_id tbl' \<and>
         (case l of None \<Rightarrow> l0 = None \<and> tbl' = tbl
          | Some v \<Rightarrow> up_contact_id v = cid \<and> (\<exists>mv. embedding_rows tbl' cid = [row_of v mv]))"
  using assms
proof (induction vs arbitrary: tbl l0)
  case Nil
  then show ?case by (auto split: option.splits)
next
  case (Cons v vs)
  show ?case
  proof (cases "upsert E tbl v")
    case (Inl m)
    with Cons.prems(4) have "upserts E vs (tbl, l0) = (tbl', l)" by simp
    from Cons.IH [OF Cons.prems(1) _ Cons.prems(3) this] Cons.prems(2)
    show ?thesis by simp
  next
    case (Inr t)
    with Cons.prems(4) have run: "upserts E vs (t, Some v) = (tbl', l)" by simp
    have u: "unique_contact_id t" using unique_upsert [OF Inr Cons.prems(1)] .
    have k: "up_contact_id v = cid" using Cons.prems(2) by simp
    from embedding_rows_upsert_same [OF Inr Cons.prems(1)] k
    have "case Some v of None \<Rightarrow> True
          | Some v \<Rightarrow> up_contact_id v = cid \<and> (\<exists>mv. embedding_rows t cid = [row_of v mv])"
      by simp
    from Cons.IH [OF u _ this run] Cons.prems(2)
    show ?thesis by (auto split: option.splits)
  qed
qed

lemma upserts_last_accepted:
  "upserts E vs (tbl, l0) = (tbl', Some v) \<Longrightarrow> v \<in> set vs \<or> l0 = Some v"
proof (induction vs arbitrary: tbl l0)
  case Nil
  then show ?case by simp
next
  case (Cons a vs)
  then show ?case by (cases "upsert E tbl a") fastforce+
qed

text \<open>
  C6. Start from a table in which \<open>contact_id\<close> is unique and run any sequence of upserts
  for one contact id. Afterwards the table holds at most one row for that id. If the
  store accepted at least one of the upserts, it holds exactly one, and the row carries
  the scope id, the vector, the hash and the source text of the last upsert accepted; if
  it accepted none, the table is as it was.
\<close>

theorem upserts_leave_one_record:
  assumes "unique_contact_id tbl"
      and "\<forall>v \<in> set vs. up_contact_id v = cid"
      and "upserts E vs (tbl, None) = (tbl', l)"
  shows "length (embedding_rows tbl' cid) \<le> 1
       \<and> (case l of
            None \<Rightarrow> tbl' = tbl
          | Some v \<Rightarrow> v \<in> set vs \<and> (\<exists>mv. embedding_rows tbl' cid = [row_of v mv]))"
proof -
  from upserts_invariant [OF assms(1,2) _ assms(3)]
  have u: "unique_contact_id tbl'"
    and l: "case l of None \<Rightarrow> tbl' = tbl
            | Some v \<Rightarrow> up_contact_id v = cid \<and> (\<exists>mv. embedding_rows tbl' cid = [row_of v mv])"
    by (auto split: option.splits)
  have "length (embedding_rows tbl' cid) \<le> 1"
    using u by (rule embedding_rows_at_most_one)
  moreover have "v \<in> set vs" if "l = Some v" for v
    using upserts_last_accepted [of E vs tbl None tbl' v] assms(3) that by simp
  ultimately show ?thesis using l by (auto split: option.splits)
qed

theorem upserts_leave_one_record_witness:
  "upserts strict_env
     [demo_upsert [1] ''aa'' ''Al'', demo_upsert [2] ''bb'' ''Al B'', demo_upsert [3] ''xx'' ''Al C'']
     ([], None)
   = ([row_of (demo_upsert [2] ''bb'' ''Al B'') ''text-embedding-ada-002''],
      Some (demo_upsert [2] ''bb'' ''Al B''))
   \<and> length (embedding_rows
        [row_of (demo_upsert [2] ''bb'' ''Al B'') ''text-embedding-ada-002''] ''c1'') \<le> 1
   \<and> (\<exists>mv. embedding_rows
          [row_of (demo_upsert [2] ''bb'' ''Al B'') ''text-embedding-ada-002''] ''c1''
        = [row_of (demo_upsert [2] ''bb'' ''Al B'') mv])"
proof -
  let ?vs = "[demo_upsert [1] ''aa'' ''Al'', demo_upsert [2] ''bb'' ''Al B'',
              demo_upsert [3] ''xx'' ''Al C'']"
  let ?t = "[row_of (demo_upsert [2] ''bb'' ''Al B'') ''text-embedding-ada-002'']"
  have h1: "unique_contact_id []"
    by (simp add: unique_contact_id_def)
  have h2: "\<forall>v \<in> set ?vs. up_contact_id v = ''c1''"
    by (simp add: demo_upsert_def)
  have h3: "upserts strict_env ?vs ([], None) = (?t, Some (demo_upsert [2] ''bb'' ''Al B''))"
    by (simp add: upsert_def strict_env_def demo_env_def demo_upsert_def row_of_def)
  from upserts_leave_one_record [OF h1 h2 h3] h3 show ?thesis
    by simp
qed

section \<open>The outcome of a batch adds up\<close>

lemma loop_body_buckets:
  assumes "s' = loop_body E userId cid s"
  shows "(skipped s' = skipped s + 1 \<and> processed s' = processed s \<and> created s' = created s
            \<and> updated s' = updated s \<and> errors s' = errors s)
       \<or> ((\<exists>m. errors s' = errors s @ [cid @ '': '' @ m]) \<and> skipped s' = skipped s
            \<and> processed s' = processed s \<and> created s' = created s \<and> updated s' = updated s)
       \<or> (processed s' = processed s + 1 \<and> created s' + updated s' = created s + updated s + 1
            \<and> created s \<le> created s' \<and> updated s \<le> updated s'
            \<and> skipped s' = skipped s \<and> errors s' = errors s)"
  unfolding assms loop_body_def try_block_def called_def Let_def
  by (simp split: option.split sum.split)

lemma process_contacts_Cons [simp]:
  "process_contacts E userId (cid # ids) s = process_contacts E userId ids (loop_body E userId cid s)"
  by (simp add: process_contacts_def)

lemma process_contacts_Nil [simp]: "process_contacts E userId [] s = s"
  by (simp add: process_contacts_def)

lemma process_contacts_append:
  "process_contacts E userId (xs @ ys) s = process_contacts E userId ys (process_contacts E userId xs s)"
  by (simp add: process_contacts_def)

lemma process_contacts_sums:
  fixes s :: run_state
  shows "processed (process_contacts E userId ids s) + skipped (process_contacts E userId ids s)
           + length (errors (process_contacts E userId ids s))
         = processed s + skipped s + length (errors s) + length ids
       \<and> processed (process_contacts E userId ids s) + (created s + updated s)
         = processed s + (created (process_contacts E userId ids s)
                          + updated (process_contacts E userId ids s))"
proof (induction ids arbitrary: s)
  case Nil
  show ?case by simp
next
  case (Cons cid ids)
  from loop_body_buckets [OF refl, of E userId cid s] Cons.IH [of "loop_body E userId cid s"]
  show ?case by auto
qed

text \<open>
  C10. Whatever the ids and whatever happens to each of them, the outcome of a run has
  \<open>processed = created + updated\<close>, and \<open>processed\<close>, \<open>skipped\<close> and the length of \<open>errors\<close>
  add up to the number of ids the loop ran over. One turn of the loop, from any state,
  raises exactly one of the three by one and lowers none.
\<close>

theorem batch_outcome_accounting:
  fixes E userId contactIds d cid and s :: run_state
  defines "r \<equiv> process_contacts E userId contactIds (initial_state d)"
      and "s' \<equiv> loop_body E userId cid s"
  shows "processed r = created r + updated r
       \<and> processed r + skipped r + length (errors r) = length contactIds
       \<and> (processed s' - processed s) + (skipped s' - skipped s)
           + (length (errors s') - length (errors s)) = 1
       \<and> processed s \<le> processed s' \<and> skipped s \<le> skipped s'
       \<and> length (errors s) \<le> length (errors s')"
proof -
  from process_contacts_sums [of E userId contactIds "initial_state d"]
  have "processed r = created r + updated r"
    and "processed r + skipped r + length (errors r) = length contactIds"
    by (simp_all add: r_def initial_state_def)
  moreover from loop_body_buckets [OF refl, of E userId cid s]
  have "(processed s' - processed s) + (skipped s' - skipped s)
           + (length (errors s') - length (errors s)) = 1
       \<and> processed s \<le> processed s' \<and> skipped s \<le> skipped s'
       \<and> length (errors s) \<le> length (errors s')"
    unfolding s'_def by auto
  ultimately show ?thesis by blast
qed

theorem batch_outcome_accounting_witness:
  "processed (process_contacts demo_env ''u1'' demo_ids (initial_state demo_db))
     = created (process_contacts demo_env ''u1'' demo_ids (initial_state demo_db))
       + updated (process_contacts demo_env ''u1'' demo_ids (initial_state demo_db))
   \<and> processed (process_contacts demo_env ''u1'' demo_ids (initial_state demo_db))
       + skipped (process_contacts demo_env ''u1'' demo_ids (initial_state demo_db))
       + length (errors (process_contacts demo_env ''u1'' demo_ids (initial_state demo_db)))
     = 5"
proof -
  have len: "length demo_ids = 5"
    by (simp add: demo_ids_def)
  from batch_outcome_accounting [of demo_env "''u1''" demo_ids demo_db]
  show ?thesis unfolding len by blast
qed

section \<open>One turn of the loop, branch by branch\<close>

lemma loop_body_unreadable:
  "rpc_generate_embedding_content E (db s) cid = None \<Longrightarrow>
   loop_body E userId cid s = (called (RpcCompose cid) s)\<lparr>skipped := skipped s + 1\<rparr>"
  by (simp add: loop_body_def try_block_def called_def)

lemma loop_body_empty:
  "rpc_generate_embedding_content E (db s) cid = Some [] \<Longrightarrow>
   loop_body E userId cid s = (called (RpcCompose cid) s)\<lparr>skipped := skipped s + 1\<rparr>"
  by (simp add: loop_body_def try_block_def called_def)

lemma loop_body_same_hash:
  "rpc_generate_embedding_content E (db s) cid = Some content \<Longrightarrow> content \<noteq> [] \<Longrightarrow>
   select_existing E (contact_embeddings (db s)) cid = Some r \<Longrightarrow>
   content_hash r = generateHash E content \<Longrightarrow>
   loop_body E userId cid s =
     (called (SelectExisting cid) (called (RpcCompose cid) s))\<lparr>skipped := skipped s + 1\<rparr>"
  by (simp add: loop_body_def try_block_def called_def Let_def)

lemma loop_body_provider_fails:
  "rpc_generate_embedding_content E (db s) cid = Some content \<Longrightarrow> stale E (db s) cid content \<Longrightarrow>
   generateEmbedding E content = Inl m \<Longrightarrow>
   loop_body E userId cid s =
     (called (Embed content) (called (SelectExisting cid) (called (RpcCompose cid) s)))
       \<lparr>errors := errors s @ [cid @ '': '' @ m]\<rparr>"
  by (simp add: loop_body_def try_block_def called_def Let_def stale_def split: option.splits)

lemma loop_body_upsert_fails:
  "rpc_generate_embedding_content E (db s) cid = Some content \<Longrightarrow> stale E (db s) cid content \<Longrightarrow>
   generateEmbedding E content = Inr vec \<Longrightarrow>
   upsert E (contact_embeddings (db s)) (upsert_object E userId cid content vec) = Inl m \<Longrightarrow>
   loop_body E userId cid s =
     (called (Upsert (upsert_object E userId cid content vec))
        (called (Embed content) (called (SelectExisting cid) (called (RpcCompose cid) s))))
       \<lparr>errors := errors s @ [cid @ '': '' @ m]\<rparr>"
  by (simp add: loop_body_def try_block_def called_def Let_def stale_def upsert_object_def
           split: option.splits)

lemma loop_body_written:
  "rpc_generate_embedding_content E (db s) cid = Some content \<Longrightarrow> stale E (db s) cid content \<Longrightarrow>
   generateEmbedding E content = Inr vec \<Longrightarrow>
   upsert E (contact_embeddings (db s)) (upsert_object E userId cid content vec) = Inr tbl \<Longrightarrow>
   loop_body E userId cid s =
     (called (Upsert (upsert_object E userId cid content vec))
        (called (Embed content) (called (SelectExisting cid) (called (RpcCompose cid) s))))
       \<lparr>db := (db s)\<lparr>contact_embeddings := tbl\<rparr>,
        created := (if select_existing E (contact_embeddings (db s)) cid = None
                    then created s + 1 else created s),
        updated := (if select_existing E (contact_embeddings (db s)) cid = None
                    then updated s else updated s + 1),
        processed := processed s + 1\<rparr>"
  by (simp add: loop_body_def try_block_def called_def Let_def stale_def upsert_object_def
           split: option.splits)

lemma up_to_date_iff:
  "up_to_date E d cid \<longleftrightarrow>
     rpc_generate_embedding_content E d cid = None \<or>
     (\<exists>content. rpc_generate_embedding_content E d cid = Some content \<and> \<not> stale E d cid content)"
  by (auto simp: up_to_date_def stale_def split: option.splits)

lemma stale_cong:
  "embedding_rows (contact_embeddings d') cid = embedding_rows (contact_embeddings d) cid \<Longrightarrow>
   stale E d' cid content = stale E d cid content"
  by (simp add: stale_def select_existing_def)

lemma db_called [simp]: "db (called c s) = db s"
  and errors_called [simp]: "errors (called c s) = errors s"
  and skipped_called [simp]: "skipped (called c s) = skipped s"
  and processed_called [simp]: "processed (called c s) = processed s"
  and created_called [simp]: "created (called c s) = created s"
  and updated_called [simp]: "updated (called c s) = updated s"
  and calls_called [simp]: "calls (called c s) = calls s @ [c]"
  by (simp_all add: called_def)

lemma upsert_accepted:
  "upsert_error E tbl v = None \<Longrightarrow> \<exists>tbl'. upsert E tbl v = Inr tbl'"
  by (simp add: upsert_def)

text \<open>A run over contacts that all need an embedding and all get one.\<close>

lemma run_written:
  fixes s :: run_state
  assumes "distinct cs"
      and "unique_contact_id (contact_embeddings (db s))"
      and "\<forall>c \<in> set cs. \<not> rpc_fails E c \<and>
             stale E (db s) c (generate_embedding_content (db s) c) \<and>
             generateEmbedding E (generate_embedding_content (db s) c) = Inr (vec c) \<and>
             (\<forall>tbl. embedding_rows tbl c = embedding_rows (contact_embeddings (db s)) c \<longrightarrow>
                upsert_error E tbl
                  (upsert_object E userId c (generate_embedding_content (db s) c) (vec c)) = None)"
  shows "processed (process_contacts E userId cs s) = processed s + length cs
       \<and> skipped (process_contacts E userId cs s) = skipped s
       \<and> errors (process_contacts E userId cs s) = errors s
       \<and> unique_contact_id (contact_embeddings (db (process_contacts E userId cs s)))
       \<and> (\<exists>t. db (process_contacts E userId cs s) = (db s)\<lparr>contact_embeddings := t\<rparr>)
       \<and> (\<forall>c \<in> set cs. \<exists>mv.
             embedding_rows (contact_embeddings (db (process_contacts E userId cs s))) c
             = [row_of (upsert_object E userId c (generate_embedding_content (db s) c) (vec c)) mv])
       \<and> (\<forall>c. c \<notin> set cs \<longrightarrow>
             embedding_rows (contact_embeddings (db (process_contacts E userId cs s))) c
             = embedding_rows (contact_embeddings (db s)) c)"
  using assms
proof (induction cs arbitrary: s)
  case Nil
  have "\<exists>t. db s = (db s)\<lparr>contact_embeddings := t\<rparr>"
    by (rule exI [of _ "contact_embeddings (db s)"]) simp
  with Nil.prems(2) show ?case by simp
next
  case (Cons c cs)
  let ?content = "generate_embedding_content (db s) c"
  let ?v = "upsert_object E userId c ?content (vec c)"
  from Cons.prems(3) have c: "rpc_generate_embedding_content E (db s) c = Some ?content"
    "stale E (db s) c ?content" "generateEmbedding E ?content = Inr (vec c)"
    "upsert_error E (contact_embeddings (db s)) ?v = None"
    by (simp_all add: rpc_generate_embedding_content_def)
  from upsert_accepted [OF c(4)] obtain tbl where
    tbl: "upsert E (contact_embeddings (db s)) ?v = Inr tbl" by blast
  define s1 where "s1 = loop_body E userId c s"
  note eq = loop_body_written [OF c(1,2,3) tbl, folded s1_def]
  have s1: "db s1 = (db s)\<lparr>contact_embeddings := tbl\<rparr>" "processed s1 = processed s + 1"
    "skipped s1 = skipped s" "errors s1 = errors s"
    by (simp_all add: eq)
  have u1: "unique_contact_id (contact_embeddings (db s1))"
    using unique_upsert [OF tbl Cons.prems(2)] by (simp add: s1)
  have key: "up_contact_id ?v = c" by (simp add: upsert_object_def)
  have other: "embedding_rows (contact_embeddings (db s1)) c' = embedding_rows (contact_embeddings (db s)) c'"
    if "c' \<noteq> c" for c'
    using embedding_rows_upsert_other [OF tbl, of c'] that by (simp add: s1 key)
  have content1: "generate_embedding_content (db s1) c' = generate_embedding_content (db s) c'" for c'
    by (simp add: s1)
  have prem: "\<forall>c' \<in> set cs. \<not> rpc_fails E c' \<and>
             stale E (db s1) c' (generate_embedding_content (db s1) c') \<and>
             generateEmbedding E (generate_embedding_content (db s1) c') = Inr (vec c') \<and>
             (\<forall>tbl. embedding_rows tbl c' = embedding_rows (contact_embeddings (db s1)) c' \<longrightarrow>
                upsert_error E tbl
                  (upsert_object E userId c' (generate_embedding_content (db s1) c') (vec c')) = None)"
  proof
    fix c' assume c': "c' \<in> set cs"
    with Cons.prems(1) have "c' \<noteq> c" by auto
    from stale_cong [OF other [OF this]] other [OF this] Cons.prems(3) c'
    show "\<not> rpc_fails E c' \<and>
             stale E (db s1) c' (generate_embedding_content (db s1) c') \<and>
             generateEmbedding E (generate_embedding_content (db s1) c') = Inr (vec c') \<and>
             (\<forall>tbl. embedding_rows tbl c' = embedding_rows (contact_embeddings (db s1)) c' \<longrightarrow>
                upsert_error E tbl
                  (upsert_object E userId c' (generate_embedding_content (db s1) c') (vec c')) = None)"
      by (simp add: content1)
  qed
  from Cons.prems(1) have d: "distinct cs" "c \<notin> set cs" by simp_all
  let ?r = "process_contacts E userId cs s1"
  from Cons.IH [OF d(1) u1 prem]
  have ih1: "processed ?r = processed s1 + length cs"
    and ih2: "skipped ?r = skipped s1"
    and ih3: "errors ?r = errors s1"
    and ih4: "unique_contact_id (contact_embeddings (db ?r))"
    and ih5: "\<exists>t. db ?r = (db s1)\<lparr>contact_embeddings := t\<rparr>"
    and ih6: "\<forall>c \<in> set cs. \<exists>mv.
             embedding_rows (contact_embeddings (db ?r)) c
             = [row_of (upsert_object E userId c (generate_embedding_content (db s1) c) (vec c)) mv]"
    and ih7: "\<forall>c. c \<notin> set cs \<longrightarrow>
             embedding_rows (contact_embeddings (db ?r)) c
             = embedding_rows (contact_embeddings (db s1)) c"
    by blast+
  have run: "process_contacts E userId (c # cs) s = ?r" by (simp add: s1_def)
  from embedding_rows_upsert_same [OF tbl Cons.prems(2)] obtain mv where
    "embedding_rows (contact_embeddings (db s1)) c = [row_of ?v mv]"
    by (auto simp: s1 key)
  with ih7 d(2) have rowc: "\<exists>mv. embedding_rows (contact_embeddings (db ?r)) c = [row_of ?v mv]"
    by auto
  have rows: "\<forall>c' \<in> set (c # cs). \<exists>mv.
             embedding_rows (contact_embeddings (db ?r)) c'
             = [row_of (upsert_object E userId c' (generate_embedding_content (db s) c') (vec c')) mv]"
    using rowc ih6 by (simp add: content1)
  have frame: "\<forall>c'. c' \<notin> set (c # cs) \<longrightarrow>
             embedding_rows (contact_embeddings (db ?r)) c'
             = embedding_rows (contact_embeddings (db s)) c'"
    using ih7 other by simp
  from ih5 obtain t where "db ?r = (db s1)\<lparr>contact_embeddings := t\<rparr>" by blast
  then have "db ?r = (db s)\<lparr>contact_embeddings := t\<rparr>" by (simp add: s1)
  then have ex: "\<exists>t. db ?r = (db s)\<lparr>contact_embeddings := t\<rparr>" ..
  have "processed ?r = processed s + length (c # cs)" "skipped ?r = skipped s"
    "errors ?r = errors s"
    using ih1 ih2 ih3 by (simp_all add: s1)
  with rows frame ex ih4 show ?case unfolding run by (intro conjI)
qed

section \<open>A failure stays with its contact\<close>

lemma loop_body_fails:
  fixes s :: run_state
  assumes "rpc_generate_embedding_content E (db s) cid = Some content"
      and "stale E (db s) cid content"
      and "generateEmbedding E content = Inl m \<or>
           (\<exists>v. generateEmbedding E content = Inr v \<and>
              upsert E (contact_embeddings (db s)) (upsert_object E userId cid content v) = Inl m)"
  shows "errors (loop_body E userId cid s) = errors s @ [cid @ '': '' @ m]
       \<and> db (loop_body E userId cid s) = db s
       \<and> processed (loop_body E userId cid s) = processed s
       \<and> created (loop_body E userId cid s) = created s
       \<and> updated (loop_body E userId cid s) = updated s
       \<and> skipped (loop_body E userId cid s) = skipped s"
  using assms(3)
proof
  assume "generateEmbedding E content = Inl m"
  from loop_body_provider_fails [OF assms(1,2) this] show ?thesis by simp
next
  assume "\<exists>v. generateEmbedding E content = Inr v \<and>
              upsert E (contact_embeddings (db s)) (upsert_object E userId cid content v) = Inl m"
  then obtain v where "generateEmbedding E content = Inr v"
    "upsert E (contact_embeddings (db s)) (upsert_object E userId cid content v) = Inl m" by blast
  from loop_body_upsert_fails [OF assms(1,2) this] show ?thesis by simp
qed

lemma demo_content:
  "generate_embedding_content demo_db ''c1'' = ''Al met at x''"
  "generate_embedding_content demo_db ''c2'' = ''Bo''"
  "generate_embedding_content demo_db ''c3'' = ''Cy''"
  "generate_embedding_content demo_db ''c4'' = ''Di''"
  "generate_embedding_content demo_db ''c5'' = ''Ed''"
  "generate_embedding_content demo_db ''c6'' = ''Zed''"
  "generate_embedding_content demo_db ''c7'' = ''Old''"
  "generate_embedding_content demo_db ''c9'' = []"
  by (simp_all add: generate_embedding_content_def contact_with_metadata_def recent_notes_def
        tag_names_def demo_db_def demo_contact_def concat_ws_def string_agg_def
        List.map_filter_def)

text \<open>
  C1 (as amended). A failure of the provider, or an upsert the store refuses, for one
  contact never ends the loop: from any state, the turn appends the contact id and the
  message to \<open>errors\<close>, changes neither the database nor a counter, and the loop goes on
  with the ids that follow. So in a run over distinct contacts that all have stale
  content, where the provider or the upsert fails for exactly one of them, \<open>processed\<close>
  is the number of the others, \<open>errors\<close> holds the one entry of the failing contact,
  each of the others has its row with the new vector and hash, and the rows of the
  failing contact are as before.
\<close>

theorem failure_isolation:
  fixes s :: run_state
  assumes ids: "distinct (xs @ cid # ys)"
      and unique: "unique_contact_id (contact_embeddings d)"
      and need: "\<forall>c \<in> set (xs @ cid # ys). \<not> rpc_fails E c \<and>
                   stale E d c (generate_embedding_content d c)"
      and ok: "\<forall>c \<in> set (xs @ ys).
                 generateEmbedding E (generate_embedding_content d c) = Inr (vec c) \<and>
                 (\<forall>tbl. embedding_rows tbl c = embedding_rows (contact_embeddings d) c \<longrightarrow>
                    upsert_error E tbl
                      (upsert_object E userId c (generate_embedding_content d c) (vec c)) = None)"
      and fails: "generateEmbedding E (generate_embedding_content d cid) = Inl m \<or>
                  (\<exists>v. generateEmbedding E (generate_embedding_content d cid) = Inr v \<and>
                     (\<forall>tbl. embedding_rows tbl cid = embedding_rows (contact_embeddings d) cid \<longrightarrow>
                        upsert_error E tbl
                          (upsert_object E userId cid (generate_embedding_content d cid) v) = Some m))"
  defines "r \<equiv> process_contacts E userId (xs @ cid # ys) (initial_state d)"
  shows "processed r = length xs + length ys \<and> skipped r = 0
       \<and> errors r = [cid @ '': '' @ m]
       \<and> (\<forall>c \<in> set (xs @ ys). \<exists>mv.
             embedding_rows (contact_embeddings (db r)) c
             = [row_of (upsert_object E userId c (generate_embedding_content d c) (vec c)) mv])
       \<and> embedding_rows (contact_embeddings (db r)) cid = embedding_rows (contact_embeddings d) cid
       \<and> (rpc_generate_embedding_content E (db s) c0 = Some content \<and> stale E (db s) c0 content \<and>
           (generateEmbedding E content = Inl msg \<or>
            (\<exists>v. generateEmbedding E content = Inr v \<and>
               upsert E (contact_embeddings (db s)) (upsert_object E userId c0 content v) = Inl msg))
          \<longrightarrow> errors (loop_body E userId c0 s) = errors s @ [c0 @ '': '' @ msg]
              \<and> db (loop_body E userId c0 s) = db s
              \<and> processed (loop_body E userId c0 s) = processed s
              \<and> created (loop_body E userId c0 s) = created s
              \<and> updated (loop_body E userId c0 s) = updated s
              \<and> skipped (loop_body E userId c0 s) = skipped s
              \<and> process_contacts E userId (c0 # rest) s
                  = process_contacts E userId rest (loop_body E userId c0 s))"
proof -
  let ?s0 = "initial_state d"
  have d0: "db ?s0 = d" "processed ?s0 = 0" "skipped ?s0 = 0" "errors ?s0 = []"
    by (simp_all add: initial_state_def)
  \<comment> \<open>the contacts before the failing one\<close>
  define s1 where "s1 = process_contacts E userId xs ?s0"
  have px: "\<forall>c \<in> set xs. \<not> rpc_fails E c \<and>
             stale E (db ?s0) c (generate_embedding_content (db ?s0) c) \<and>
             generateEmbedding E (generate_embedding_content (db ?s0) c) = Inr (vec c) \<and>
             (\<forall>tbl. embedding_rows tbl c = embedding_rows (contact_embeddings (db ?s0)) c \<longrightarrow>
                upsert_error E tbl
                  (upsert_object E userId c (generate_embedding_content (db ?s0) c) (vec c)) = None)"
    using need ok by (simp add: d0)
  from ids have dx: "distinct xs" by simp
  from run_written [OF dx _ px, folded s1_def] unique
  have x1: "processed s1 = length xs" and x2: "skipped s1 = 0" and x3: "errors s1 = []"
    and x4: "unique_contact_id (contact_embeddings (db s1))"
    and x5: "\<exists>t. db s1 = d\<lparr>contact_embeddings := t\<rparr>"
    and x6: "\<forall>c \<in> set xs. \<exists>mv. embedding_rows (contact_embeddings (db s1)) c
             = [row_of (upsert_object E userId c (generate_embedding_content d c) (vec c)) mv]"
    and x7: "\<forall>c. c \<notin> set xs \<longrightarrow>
             embedding_rows (contact_embeddings (db s1)) c = embedding_rows (contact_embeddings d) c"
    by (simp_all add: d0)
  from x5 have content1: "generate_embedding_content (db s1) c = generate_embedding_content d c" for c
    by auto
  \<comment> \<open>the failing contact\<close>
  define s2 where "s2 = loop_body E userId cid s1"
  from ids have "cid \<notin> set xs" by simp
  with x7 have rows_cid: "embedding_rows (contact_embeddings (db s1)) cid
                          = embedding_rows (contact_embeddings d) cid" by simp
  have c1: "rpc_generate_embedding_content E (db s1) cid = Some (generate_embedding_content d cid)"
    using need by (simp add: rpc_generate_embedding_content_def content1)
  have c2: "stale E (db s1) cid (generate_embedding_content d cid)"
    using need stale_cong [OF rows_cid] by simp
  have c3: "generateEmbedding E (generate_embedding_content d cid) = Inl m \<or>
           (\<exists>v. generateEmbedding E (generate_embedding_content d cid) = Inr v \<and>
              upsert E (contact_embeddings (db s1))
                (upsert_object E userId cid (generate_embedding_content d cid) v) = Inl m)"
    using fails rows_cid by (auto simp: upsert_refused)
  from loop_body_fails [OF c1 c2 c3, folded s2_def]
  have y1: "processed s2 = length xs" and y2: "skipped s2 = 0"
    and y3: "errors s2 = [cid @ '': '' @ m]" and y4: "db s2 = db s1"
    by (simp_all add: x1 x2 x3)
  \<comment> \<open>the contacts after it\<close>
  define s3 where "s3 = process_contacts E userId ys s2"
  have rows_y: "embedding_rows (contact_embeddings (db s2)) c = embedding_rows (contact_embeddings d) c"
    if "c \<in> set ys" for c
  proof -
    from ids that have "c \<notin> set xs" by auto
    with x7 show ?thesis by (simp add: y4)
  qed
  have py: "\<forall>c \<in> set ys. \<not> rpc_fails E c \<and>
             stale E (db s2) c (generate_embedding_content (db s2) c) \<and>
             generateEmbedding E (generate_embedding_content (db s2) c) = Inr (vec c) \<and>
             (\<forall>tbl. embedding_rows tbl c = embedding_rows (contact_embeddings (db s2)) c \<longrightarrow>
                upsert_error E tbl
                  (upsert_object E userId c (generate_embedding_content (db s2) c) (vec c)) = None)"
  proof
    fix c assume c: "c \<in> set ys"
    from stale_cong [OF rows_y [OF c]] rows_y [OF c] need ok c
    show "\<not> rpc_fails E c \<and>
             stale E (db s2) c (generate_embedding_content (db s2) c) \<and>
             generateEmbedding E (generate_embedding_content (db s2) c) = Inr (vec c) \<and>
             (\<forall>tbl. embedding_rows tbl c = embedding_rows (contact_embeddings (db s2)) c \<longrightarrow>
                upsert_error E tbl
                  (upsert_object E userId c (generate_embedding_content (db s2) c) (vec c)) = None)"
      by (simp add: y4 content1)
  qed
  from ids have dy: "distinct ys" by simp
  from run_written [OF dy _ py, folded s3_def] x4
  have z1: "processed s3 = length xs + length ys" and z2: "skipped s3 = 0"
    and z3: "errors s3 = [cid @ '': '' @ m]"
    and z6: "\<forall>c \<in> set ys. \<exists>mv. embedding_rows (contact_embeddings (db s3)) c
             = [row_of (upsert_object E userId c (generate_embedding_content d c) (vec c)) mv]"
    and z7: "\<forall>c. c \<notin> set ys \<longrightarrow>
             embedding_rows (contact_embeddings (db s3)) c = embedding_rows (contact_embeddings (db s1)) c"
    by (simp_all add: y1 y2 y3 y4 content1)
  have r: "r = s3"
    by (simp add: r_def s3_def s2_def s1_def process_contacts_append)
  have rows: "\<forall>c \<in> set (xs @ ys). \<exists>mv.
             embedding_rows (contact_embeddings (db s3)) c
             = [row_of (upsert_object E userId c (generate_embedding_content d c) (vec c)) mv]"
  proof
    fix c assume "c \<in> set (xs @ ys)"
    then consider "c \<in> set ys" | "c \<in> set xs" "c \<notin> set ys" by auto
    then show "\<exists>mv. embedding_rows (contact_embeddings (db s3)) c
             = [row_of (upsert_object E userId c (generate_embedding_content d c) (vec c)) mv]"
    proof cases
      case 1
      with z6 show ?thesis by simp
    next
      case 2
      with z7 x6 show ?thesis by simp
    qed
  qed
  from ids have "cid \<notin> set ys" by simp
  with z7 rows_cid have keep: "embedding_rows (contact_embeddings (db s3)) cid
                               = embedding_rows (contact_embeddings d) cid" by simp
  have step: "rpc_generate_embedding_content E (db s) c0 = Some content \<and> stale E (db s) c0 content \<and>
           (generateEmbedding E content = Inl msg \<or>
            (\<exists>v. generateEmbedding E content = Inr v \<and>
               upsert E (contact_embeddings (db s)) (upsert_object E userId c0 content v) = Inl msg))
          \<longrightarrow> errors (loop_body E userId c0 s) = errors s @ [c0 @ '': '' @ msg]
              \<and> db (loop_body E userId c0 s) = db s
              \<and> processed (loop_body E userId c0 s) = processed s
              \<and> created (loop_body E userId c0 s) = created s
              \<and> updated (loop_body E userId c0 s) = updated s
              \<and> skipped (loop_body E userId c0 s) = skipped s
              \<and> process_contacts E userId (c0 # rest) s
                  = process_contacts E userId rest (loop_body E userId c0 s)"
    using loop_body_fails [of E s c0 content msg userId] by simp
  from z1 z2 z3 rows keep step show ?thesis unfolding r by (intro conjI)
qed

theorem failure_isolation_witness:
  "processed (process_contacts demo_env ''u1'' ([''c1'', ''c2''] @ ''c3'' # [''c4'', ''c5''])
               (initial_state demo_db)) = 4
   \<and> errors (process_contacts demo_env ''u1'' ([''c1'', ''c2''] @ ''c3'' # [''c4'', ''c5''])
               (initial_state demo_db)) = [''c3: OpenAI API error: Too Many Requests'']
   \<and> (\<exists>mv. embedding_rows (contact_embeddings (db (process_contacts demo_env ''u1''
            ([''c1'', ''c2''] @ ''c3'' # [''c4'', ''c5'']) (initial_state demo_db)))) ''c1''
        = [row_of (upsert_object demo_env ''u1'' ''c1'' ''Al met at x'' [11]) mv])
   \<and> (\<exists>mv. embedding_rows (contact_embeddings (db (process_contacts demo_env ''u1''
            ([''c1'', ''c2''] @ ''c3'' # [''c4'', ''c5'']) (initial_state demo_db)))) ''c2''
        = [row_of (upsert_object demo_env ''u1'' ''c2'' ''Bo'' [2]) mv])
   \<and> (\<exists>mv. embedding_rows (contact_embeddings (db (process_contacts demo_env ''u1''
            ([''c1'', ''c2''] @ ''c3'' # [''c4'', ''c5'']) (initial_state demo_db)))) ''c4''
        = [row_of (upsert_object demo_env ''u1'' ''c4'' ''Di'' [2]) mv])
   \<and> (\<exists>mv. embedding_rows (contact_embeddings (db (process_contacts demo_env ''u1''
            ([''c1'', ''c2''] @ ''c3'' # [''c4'', ''c5'']) (initial_state demo_db)))) ''c5''
        = [row_of (upsert_object demo_env ''u1'' ''c5'' ''Ed'' [2]) mv])
   \<and> embedding_rows (contact_embeddings (db (process_contacts demo_env ''u1''
            ([''c1'', ''c2''] @ ''c3'' # [''c4'', ''c5'']) (initial_state demo_db)))) ''c3'' = []"
proof -
  let ?vec = "\<lambda>c. [real (length (generate_embedding_content demo_db c))]"
  have h1: "distinct ([''c1'', ''c2''] @ ''c3'' # [''c4'', ''c5''])" by simp
  have h2: "unique_contact_id (contact_embeddings demo_db)"
    by (simp add: unique_contact_id_def demo_db_def)
  have h3: "\<forall>c \<in> set ([''c1'', ''c2''] @ ''c3'' # [''c4'', ''c5'']). \<not> rpc_fails demo_env c \<and>
                   stale demo_env demo_db c (generate_embedding_content demo_db c)"
    by (simp add: demo_content stale_def select_existing_def embedding_rows_def)
       (simp add: demo_env_def demo_db_def)
  have h4: "\<forall>c \<in> set ([''c1'', ''c2''] @ [''c4'', ''c5'']).
                 generateEmbedding demo_env (generate_embedding_content demo_db c) = Inr (?vec c) \<and>
                 (\<forall>tbl. embedding_rows tbl c = embedding_rows (contact_embeddings demo_db) c \<longrightarrow>
                    upsert_error demo_env tbl
                      (upsert_object demo_env ''u1'' c (generate_embedding_content demo_db c) (?vec c))
                    = None)"
    by (simp add: demo_content generateEmbedding_def) (simp add: demo_env_def)
  have h5: "generateEmbedding demo_env (generate_embedding_content demo_db ''c3'')
              = Inl ''OpenAI API error: Too Many Requests'' \<or>
                  (\<exists>v. generateEmbedding demo_env (generate_embedding_content demo_db ''c3'') = Inr v \<and>
                     (\<forall>tbl. embedding_rows tbl ''c3'' = embedding_rows (contact_embeddings demo_db) ''c3'' \<longrightarrow>
                        upsert_error demo_env tbl
                          (upsert_object demo_env ''u1'' ''c3'' (generate_embedding_content demo_db ''c3'') v)
                        = Some ''OpenAI API error: Too Many Requests''))"
    by (simp add: demo_content generateEmbedding_def demo_env_def)
  have e: "embedding_rows (contact_embeddings demo_db) ''c3'' = []"
    by (simp add: embedding_rows_def demo_db_def)
  from failure_isolation [OF h1 h2 h3 h4 h5] show ?thesis
    by (simp add: demo_content e)
qed

text \<open>
  A failure of a store read is not recorded. With the read of the content of \<open>c3\<close>
  failing, the run over the five contacts records no error: \<open>c3\<close> is counted as
  skipped.
\<close>

theorem store_read_failure_counterexample:
  "rpc_fails flaky_env ''c3''
   \<and> errors (process_contacts flaky_env ''u1'' demo_ids (initial_state demo_db)) = []
   \<and> skipped (process_contacts flaky_env ''u1'' demo_ids (initial_state demo_db)) = 1
   \<and> processed (process_contacts flaky_env ''u1'' demo_ids (initial_state demo_db)) = 4"
  by code_simp

section \<open>The decision to embed\<close>

lemma select_existing_table:
  assumes "\<not> select_fails E cid" "unique_contact_id tbl"
  shows "select_existing E tbl cid = Some r \<longleftrightarrow> r \<in> set tbl \<and> ce_contact_id r = cid"
proof
  assume "select_existing E tbl cid = Some r"
  with assms(1) have "embedding_rows tbl cid = [r]"
    by (auto simp: select_existing_def split: list.splits)
  then have "r \<in> set (embedding_rows tbl cid)" by simp
  then show "r \<in> set tbl \<and> ce_contact_id r = cid" by (simp add: embedding_rows_def)
next
  assume "r \<in> set tbl \<and> ce_contact_id r = cid"
  with embedding_rows_unique [OF assms(2), of r] assms(1)
  show "select_existing E tbl cid = Some r" by (auto simp: select_existing_def)
qed

lemma loop_body_stale:
  fixes s :: run_state
  assumes "rpc_generate_embedding_content E (db s) cid = Some content"
      and "stale E (db s) cid content"
  shows "skipped (loop_body E userId cid s) = skipped s
       \<and> (\<exists>rest. calls (loop_body E userId cid s)
             = calls s @ RpcCompose cid # SelectExisting cid # Embed content # rest)"
proof (cases "generateEmbedding E content")
  case (Inl m)
  from loop_body_provider_fails [OF assms this] show ?thesis by simp
next
  case (Inr vec)
  show ?thesis
  proof (cases "upsert E (contact_embeddings (db s)) (upsert_object E userId cid content vec)")
    case (Inl m)
    from loop_body_upsert_fails [OF assms Inr this] show ?thesis by simp
  next
    case (Inr tbl)
    from loop_body_written [OF assms \<open>generateEmbedding E content = Inr vec\<close> this]
    show ?thesis by simp
  qed
qed

text \<open>
  C2 (as amended). Take a contact whose content the loop has read. If the content is not
  empty and the lookup is answered, in a table where \<open>contact_id\<close> is unique, the turn
  counts the contact as skipped without calling the provider (it makes the content read
  and the lookup, and nothing else; no error, no change to the database) if and only if
  the table holds a row for the contact whose stored hash equals the hash of the
  content. Whether the lookup is answered or not, the turn skips in this way if and
  only if the lookup returns such a row. Stale content is not skipped and goes to the
  provider. If the content is empty, the contact is counted as skipped, with no error,
  and the only call is the content read itself: no lookup, no provider call, no upsert.
\<close>

theorem change_detector_decision:
  fixes s :: run_state and userId :: uuid
  assumes "rpc_generate_embedding_content E (db s) cid = Some content"
  defines "s' \<equiv> loop_body E userId cid s"
  shows "(content \<noteq> [] \<longrightarrow>
           ((skipped s' = skipped s + 1 \<and> errors s' = errors s \<and> db s' = db s \<and>
             calls s' = calls s @ [RpcCompose cid, SelectExisting cid])
            \<longleftrightarrow> (\<exists>r. select_existing E (contact_embeddings (db s)) cid = Some r \<and>
                     content_hash r = generateHash E content)))
       \<and> (content \<noteq> [] \<longrightarrow> \<not> select_fails E cid \<longrightarrow>
          unique_contact_id (contact_embeddings (db s)) \<longrightarrow>
           ((skipped s' = skipped s + 1 \<and> errors s' = errors s \<and> db s' = db s \<and>
             calls s' = calls s @ [RpcCompose cid, SelectExisting cid])
            \<longleftrightarrow> (\<exists>r \<in> set (contact_embeddings (db s)). ce_contact_id r = cid \<and>
                     content_hash r = generateHash E content)))
       \<and> (stale E (db s) cid content \<longrightarrow>
           skipped s' = skipped s \<and>
           (\<exists>rest. calls s' = calls s @ RpcCompose cid # SelectExisting cid # Embed content # rest))
       \<and> (content = [] \<longrightarrow>
           skipped s' = skipped s + 1 \<and> errors s' = errors s \<and> db s' = db s \<and>
           processed s' = processed s \<and> calls s' = calls s @ [RpcCompose cid])"
proof -
  let ?skip = "skipped s' = skipped s + 1 \<and> errors s' = errors s \<and> db s' = db s \<and>
             calls s' = calls s @ [RpcCompose cid, SelectExisting cid]"
  let ?same = "\<exists>r. select_existing E (contact_embeddings (db s)) cid = Some r \<and>
                     content_hash r = generateHash E content"
  have a: "?skip \<longleftrightarrow> ?same" if ne: "content \<noteq> []"
  proof
    assume ?skip
    show ?same
    proof (rule ccontr)
      assume "\<not> ?same"
      with ne have "stale E (db s) cid content"
        by (auto simp: stale_def split: option.splits)
      from loop_body_stale [OF assms(1) this, of userId] \<open>?skip\<close> show False
        by (simp add: s'_def)
    qed
  next
    assume ?same
    then obtain r where "select_existing E (contact_embeddings (db s)) cid = Some r"
      "content_hash r = generateHash E content" by blast
    from loop_body_same_hash [OF assms(1) ne this] show ?skip
      by (simp add: s'_def)
  qed
  have b: "?same \<longleftrightarrow> (\<exists>r \<in> set (contact_embeddings (db s)). ce_contact_id r = cid \<and>
                     content_hash r = generateHash E content)"
    if "\<not> select_fails E cid" "unique_contact_id (contact_embeddings (db s))"
    using select_existing_table [OF that] by blast
  have c: "skipped s' = skipped s \<and>
           (\<exists>rest. calls s' = calls s @ RpcCompose cid # SelectExisting cid # Embed content # rest)"
    if "stale E (db s) cid content"
    using loop_body_stale [OF assms(1) that] by (simp add: s'_def)
  have d: "skipped s' = skipped s + 1 \<and> errors s' = errors s \<and> db s' = db s \<and>
           processed s' = processed s \<and> calls s' = calls s @ [RpcCompose cid]"
    if "content = []"
    using loop_body_empty [of E s cid userId] assms(1) that by (simp add: s'_def)
  from a b c d show ?thesis by blast
qed

theorem change_detector_decision_witness:
  "skipped (loop_body demo_env ''u1'' ''c1'' (initial_state embedded_db)) = 1
   \<and> calls (loop_body demo_env ''u1'' ''c1'' (initial_state embedded_db))
       = [RpcCompose ''c1'', SelectExisting ''c1'']
   \<and> skipped (loop_body demo_env ''u1'' ''c9'' (initial_state embedded_db)) = 1
   \<and> calls (loop_body demo_env ''u1'' ''c9'' (initial_state embedded_db)) = [RpcCompose ''c9'']"
proof -
  let ?s = "initial_state embedded_db"
  have db: "db ?s = embedded_db" by (simp add: initial_state_def)
  have content: "generate_embedding_content embedded_db c = generate_embedding_content demo_db c" for c
    by (simp add: embedded_db_def)
  have h1: "rpc_generate_embedding_content demo_env (db ?s) ''c1'' = Some ''Al met at x''"
    by (simp add: rpc_generate_embedding_content_def db content demo_content) (simp add: demo_env_def)
  have h9: "rpc_generate_embedding_content demo_env (db ?s) ''c9'' = Some []"
    by (simp add: rpc_generate_embedding_content_def db content demo_content) (simp add: demo_env_def)
  have same: "\<exists>r. select_existing demo_env (contact_embeddings (db ?s)) ''c1'' = Some r \<and>
                     content_hash r = generateHash demo_env ''Al met at x''"
    by (simp add: initial_state_def select_existing_def embedding_rows_def embedded_db_def
          generateHash_def hex_byte_def hex_digit_def demo_env_def)
  from change_detector_decision [OF h1, of "''u1''"] same
       change_detector_decision [OF h9, of "''u1''"]
  show ?thesis by (simp add: initial_state_def)
qed

text \<open>
  A lookup that fails counts as no prior row. The table holds the row of \<open>c1\<close> under the
  hash of its content, the lookup of \<open>c1\<close> fails, and the turn does not skip: it calls
  the provider.
\<close>

theorem failed_lookup_counterexample:
  "map (\<lambda>r. (ce_contact_id r, content_hash r)) (contact_embeddings embedded_db)
     = [(''c1'', generateHash blind_env (generate_embedding_content embedded_db ''c1''))]
   \<and> generate_embedding_content embedded_db ''c1'' = ''Al met at x''
   \<and> select_fails blind_env ''c1''
   \<and> skipped (loop_body blind_env ''u1'' ''c1'' (initial_state embedded_db)) = 0
   \<and> take 3 (calls (loop_body blind_env ''u1'' ''c1'' (initial_state embedded_db)))
       = [RpcCompose ''c1'', SelectExisting ''c1'', Embed ''Al met at x'']"
  by code_simp

section \<open>A second run\<close>

lemma up_to_date_cong:
  assumes "embedding_rows (contact_embeddings d') cid = embedding_rows (contact_embeddings d) cid"
      and "rpc_generate_embedding_content E d' cid = rpc_generate_embedding_content E d cid"
  shows "up_to_date E d' cid = up_to_date E d cid"
proof -
  have "select_existing E (contact_embeddings d') cid = select_existing E (contact_embeddings d) cid"
    by (simp add: select_existing_def assms(1))
  then show ?thesis
    by (simp only: up_to_date_def assms(2))
qed

lemma loop_body_up_to_date:
  fixes s :: run_state
  assumes "up_to_date E (db s) cid"
  shows "db (loop_body E userId cid s) = db s
       \<and> skipped (loop_body E userId cid s) = skipped s + 1
       \<and> processed (loop_body E userId cid s) = processed s
       \<and> created (loop_body E userId cid s) = created s
       \<and> updated (loop_body E userId cid s) = updated s
       \<and> errors (loop_body E userId cid s) = errors s"
proof -
  from assms consider "rpc_generate_embedding_content E (db s) cid = None"
    | "rpc_generate_embedding_content E (db s) cid = Some []"
    | content r where "rpc_generate_embedding_content E (db s) cid = Some content" "content \<noteq> []"
        "select_existing E (contact_embeddings (db s)) cid = Some r"
        "content_hash r = generateHash E content"
    by (auto simp: up_to_date_def split: option.splits)
  then show ?thesis
  proof cases
    case 1
    from loop_body_unreadable [OF this] show ?thesis by simp
  next
    case 2
    from loop_body_empty [OF this] show ?thesis by simp
  next
    case 3
    from loop_body_same_hash [OF this] show ?thesis by simp
  qed
qed

lemma run_up_to_date:
  fixes s :: run_state
  assumes "\<forall>c \<in> set ids. up_to_date E (db s) c"
  shows "db (process_contacts E userId ids s) = db s
       \<and> skipped (process_contacts E userId ids s) = skipped s + length ids
       \<and> processed (process_contacts E userId ids s) = processed s
       \<and> created (process_contacts E userId ids s) = created s
       \<and> updated (process_contacts E userId ids s) = updated s
       \<and> errors (process_contacts E userId ids s) = errors s"
  using assms
proof (induction ids arbitrary: s)
  case Nil
  show ?case by simp
next
  case (Cons c ids)
  from Cons.prems have "up_to_date E (db s) c" by simp
  note step = loop_body_up_to_date [OF this, of userId]
  from Cons.prems step have "\<forall>c' \<in> set ids. up_to_date E (db (loop_body E userId c s)) c'"
    by simp
  from Cons.IH [OF this] step show ?case by simp
qed

lemma errors_loop_body: "\<exists>es. errors (loop_body E userId cid s) = errors s @ es"
  using loop_body_buckets [OF refl, of E userId cid s] by auto

lemma errors_run: "\<exists>es. errors (process_contacts E userId ids s) = errors s @ es"
proof (induction ids arbitrary: s)
  case Nil
  show ?case by simp
next
  case (Cons c ids)
  from errors_loop_body [of E userId c s] Cons [of "loop_body E userId c s"]
  show ?case by auto
qed

text \<open>A turn that records no error leaves its contact up to date.\<close>

lemma loop_body_settles:
  fixes s :: run_state
  assumes u: "unique_contact_id (contact_embeddings (db s))"
      and sel: "\<not> select_fails E cid"
      and noerr: "errors (loop_body E userId cid s) = errors s"
  shows "unique_contact_id (contact_embeddings (db (loop_body E userId cid s)))
       \<and> up_to_date E (db (loop_body E userId cid s)) cid
       \<and> (\<forall>c0. up_to_date E (db s) c0 \<longrightarrow> up_to_date E (db (loop_body E userId cid s)) c0)"
proof (cases "up_to_date E (db s) cid")
  case True
  from loop_body_up_to_date [OF True, of userId] u True show ?thesis by simp
next
  case False
  then obtain content where c: "rpc_generate_embedding_content E (db s) cid = Some content"
    "stale E (db s) cid content"
    by (auto simp: up_to_date_iff)
  show ?thesis
  proof (cases "generateEmbedding E content")
    case (Inl m)
    from loop_body_provider_fails [OF c this, of userId] noerr show ?thesis by simp
  next
    case (Inr vec)
    let ?v = "upsert_object E userId cid content vec"
    show ?thesis
    proof (cases "upsert E (contact_embeddings (db s)) ?v")
      case (Inl m)
      from loop_body_upsert_fails [OF c Inr this] noerr show ?thesis by simp
    next
      case (Inr tbl)
      from loop_body_written [OF c \<open>generateEmbedding E content = Inr vec\<close> this]
      have d1: "db (loop_body E userId cid s) = (db s)\<lparr>contact_embeddings := tbl\<rparr>" by simp
      have key: "up_contact_id ?v = cid" by (simp add: upsert_object_def)
      have u1: "unique_contact_id tbl" using unique_upsert [OF Inr u] .
      from embedding_rows_upsert_same [OF Inr u] obtain mv where
        "embedding_rows tbl cid = [row_of ?v mv]" by (auto simp: key)
      with sel have "select_existing E tbl cid = Some (row_of ?v mv)"
        by (simp add: select_existing_def)
      moreover have "content_hash (row_of ?v mv) = generateHash E content"
        by (simp add: row_of_def upsert_object_def)
      ultimately have now: "up_to_date E ((db s)\<lparr>contact_embeddings := tbl\<rparr>) cid"
        using c(1) by (simp add: up_to_date_def)
      have keep: "up_to_date E ((db s)\<lparr>contact_embeddings := tbl\<rparr>) c0" if "up_to_date E (db s) c0" for c0
      proof -
        from that False have "c0 \<noteq> cid" by auto
        from embedding_rows_upsert_other [OF Inr, of c0] this
        have "embedding_rows tbl c0 = embedding_rows (contact_embeddings (db s)) c0"
          by (simp add: key)
        then have "up_to_date E ((db s)\<lparr>contact_embeddings := tbl\<rparr>) c0 = up_to_date E (db s) c0"
          by (intro up_to_date_cong) simp_all
        with that show ?thesis by simp
      qed
      from u1 now keep show ?thesis by (simp add: d1)
    qed
  qed
qed

lemma run_settles:
  fixes s :: run_state
  assumes "unique_contact_id (contact_embeddings (db s))"
      and "\<forall>c \<in> set ids. \<not> select_fails E c"
      and "errors (process_contacts E userId ids s) = errors s"
  shows "unique_contact_id (contact_embeddings (db (process_contacts E userId ids s)))
       \<and> (\<forall>c \<in> set ids. up_to_date E (db (process_contacts E userId ids s)) c)
       \<and> (\<forall>c0. up_to_date E (db s) c0 \<longrightarrow> up_to_date E (db (process_contacts E userId ids s)) c0)"
  using assms
proof (induction ids arbitrary: s)
  case Nil
  then show ?case by simp
next
  case (Cons c ids)
  let ?s1 = "loop_body E userId c s"
  let ?r = "process_contacts E userId ids ?s1"
  from errors_loop_body [of E userId c s] obtain e1 where e1: "errors ?s1 = errors s @ e1" by blast
  from errors_run [of E userId ids ?s1] obtain e2 where e2: "errors ?r = errors ?s1 @ e2" by blast
  from Cons.prems(3) e1 e2 have "e1 = []" "e2 = []" by simp_all
  with e1 e2 have n1: "errors ?s1 = errors s" and n2: "errors ?r = errors ?s1" by simp_all
  from Cons.prems(2) have sel: "\<not> select_fails E c" "\<forall>c \<in> set ids. \<not> select_fails E c" by simp_all
  from loop_body_settles [OF Cons.prems(1) sel(1) n1]
  have a1: "unique_contact_id (contact_embeddings (db ?s1))"
    and a2: "up_to_date E (db ?s1) c"
    and a3: "\<forall>c0. up_to_date E (db s) c0 \<longrightarrow> up_to_date E (db ?s1) c0"
    by blast+
  from Cons.IH [OF a1 sel(2) n2]
  have b1: "unique_contact_id (contact_embeddings (db ?r))"
    and b2: "\<forall>c \<in> set ids. up_to_date E (db ?r) c"
    and b3: "\<forall>c0. up_to_date E (db ?s1) c0 \<longrightarrow> up_to_date E (db ?r) c0"
    by blast+
  from a2 a3 b1 b2 b3 show ?case by simp
qed

lemma same_database: "\<exists>t. d = d\<lparr>contact_embeddings := t\<rparr>"
  by (rule exI [of _ "contact_embeddings d"]) simp

lemma loop_body_embeddings_only:
  fixes s :: run_state
  shows "\<exists>t. db (loop_body E userId cid s) = (db s)\<lparr>contact_embeddings := t\<rparr>"
proof (cases "up_to_date E (db s) cid")
  case True
  from loop_body_up_to_date [OF True, of userId] same_database [of "db s"]
  show ?thesis by simp
next
  case False
  then obtain content where c: "rpc_generate_embedding_content E (db s) cid = Some content"
    "stale E (db s) cid content"
    by (auto simp: up_to_date_iff)
  show ?thesis
  proof (cases "generateEmbedding E content")
    case (Inl m)
    from loop_body_provider_fails [OF c this, of userId] same_database [of "db s"]
    show ?thesis by simp
  next
    case (Inr vec)
    show ?thesis
    proof (cases "upsert E (contact_embeddings (db s)) (upsert_object E userId cid content vec)")
      case (Inl m)
      from loop_body_upsert_fails [OF c Inr this] same_database [of "db s"]
      show ?thesis by simp
    next
      case (Inr tbl)
      from loop_body_written [OF c \<open>generateEmbedding E content = Inr vec\<close> this]
      show ?thesis by auto
    qed
  qed
qed

lemma run_embeddings_only:
  fixes s :: run_state
  shows "\<exists>t. db (process_contacts E userId ids s) = (db s)\<lparr>contact_embeddings := t\<rparr>"
proof (induction ids arbitrary: s)
  case Nil
  show ?case using same_database [of "db s"] by simp
next
  case (Cons c ids)
  from loop_body_embeddings_only [of E userId c s] obtain t1 where
    "db (loop_body E userId c s) = (db s)\<lparr>contact_embeddings := t1\<rparr>" by blast
  moreover from Cons [of "loop_body E userId c s"] obtain t2 where
    "db (process_contacts E userId ids (loop_body E userId c s))
       = (db (loop_body E userId c s))\<lparr>contact_embeddings := t2\<rparr>" by blast
  ultimately have "db (process_contacts E userId (c # ids) s) = (db s)\<lparr>contact_embeddings := t2\<rparr>"
    by simp
  then show ?case ..
qed

lemma select_contactIds_ignores_embeddings:
  "select_contactIds E (d\<lparr>contact_embeddings := t\<rparr>) userId b = select_contactIds E d userId b"
  by (simp add: select_contactIds_def split: option.split)

lemma same_ids_after_run:
  "select_contactIds E (db (process_contacts E userId ids (initial_state d))) userId' b
   = select_contactIds E d userId' b"
proof -
  from run_embeddings_only [of E userId ids "initial_state d"] obtain t where
    "db (process_contacts E userId ids (initial_state d)) = d\<lparr>contact_embeddings := t\<rparr>"
    by (auto simp: initial_state_def)
  then show ?thesis by (simp add: select_contactIds_ignores_embeddings)
qed

text \<open>
  C3 (as amended). Run the loop twice over the same ids, the second time on the database
  the first run left, with the same provider and store. If \<open>contact_id\<close> is unique in
  the table, the store answers the lookups of these ids, and the first run recorded no
  error, then the second run creates nothing, updates nothing, counts every id as
  skipped, records no error and leaves the database as it found it. The ids that a
  request selects on the database the first run left are those it selected before.
\<close>

theorem second_run_skips_all:
  assumes "unique_contact_id (contact_embeddings d)"
      and "\<forall>c \<in> set contactIds. \<not> select_fails E c"
      and "errors (process_contacts E userId contactIds (initial_state d)) = []"
  defines "d1 \<equiv> db (process_contacts E userId contactIds (initial_state d))"
  defines "r2 \<equiv> process_contacts E userId contactIds (initial_state d1)"
  shows "created r2 = 0 \<and> updated r2 = 0 \<and> processed r2 = 0
       \<and> skipped r2 = length contactIds \<and> errors r2 = [] \<and> db r2 = d1
       \<and> select_contactIds E d1 userId b = select_contactIds E d userId b"
proof -
  have ids: "select_contactIds E d1 userId b = select_contactIds E d userId b"
    unfolding d1_def by (rule same_ids_after_run)
  have "errors (process_contacts E userId contactIds (initial_state d)) = errors (initial_state d)"
    using assms(3) by (simp add: initial_state_def)
  from run_settles [OF _ assms(2) this] assms(1)
  have "\<forall>c \<in> set contactIds. up_to_date E d1 c"
    by (simp add: d1_def initial_state_def)
  then have "\<forall>c \<in> set contactIds. up_to_date E (db (initial_state d1)) c"
    by (simp add: initial_state_def)
  from run_up_to_date [OF this, of userId] ids show ?thesis
    by (simp add: r2_def initial_state_def)
qed

theorem second_run_skips_all_witness:
  "errors (process_contacts demo_env ''u1'' [''c1'', ''c2'', ''c9''] (initial_state demo_db)) = []
   \<and> skipped (process_contacts demo_env ''u1'' [''c1'', ''c2'', ''c9'']
        (initial_state (db (process_contacts demo_env ''u1'' [''c1'', ''c2'', ''c9'']
           (initial_state demo_db))))) = 3
   \<and> created (process_contacts demo_env ''u1'' [''c1'', ''c2'', ''c9'']
        (initial_state (db (process_contacts demo_env ''u1'' [''c1'', ''c2'', ''c9'']
           (initial_state demo_db))))) = 0
   \<and> updated (process_contacts demo_env ''u1'' [''c1'', ''c2'', ''c9'']
        (initial_state (db (process_contacts demo_env ''u1'' [''c1'', ''c2'', ''c9'']
           (initial_state demo_db))))) = 0"
proof -
  have h1: "unique_contact_id (contact_embeddings demo_db)"
    by (simp add: unique_contact_id_def demo_db_def)
  have h2: "\<forall>c \<in> set [''c1'', ''c2'', ''c9'']. \<not> select_fails demo_env c"
    by (simp add: demo_env_def)
  have h3: "errors (process_contacts demo_env ''u1'' [''c1'', ''c2'', ''c9''] (initial_state demo_db)) = []"
    by code_simp
  from second_run_skips_all [OF h1 h2 h3] h3 show ?thesis by simp
qed

text \<open>
  Without those conditions the second run need not skip everything. A provider that
  refuses the content of \<open>c3\<close> refuses it again: the second run over the five contacts
  skips four and records an error. With the lookup of \<open>c1\<close> failing both times, the
  first run writes the row of \<open>c1\<close> without error, and the second run embeds \<open>c1\<close> again
  and has its write refused: it records an error, skips nothing and creates nothing.
\<close>

theorem second_run_counterexample:
  "errors (process_contacts demo_env ''u1'' demo_ids
            (initial_state (db (process_contacts demo_env ''u1'' demo_ids (initial_state demo_db)))))
     = [''c3: OpenAI API error: Too Many Requests'']
   \<and> skipped (process_contacts demo_env ''u1'' demo_ids
            (initial_state (db (process_contacts demo_env ''u1'' demo_ids (initial_state demo_db)))))
     = 4
   \<and> length demo_ids = 5
   \<and> errors (process_contacts blind_env ''u1'' [''c1''] (initial_state demo_db)) = []
   \<and> length (errors (process_contacts blind_env ''u1'' [''c1'']
            (initial_state (db (process_contacts blind_env ''u1'' [''c1''] (initial_state demo_db))))))
     = 1
   \<and> skipped (process_contacts blind_env ''u1'' [''c1'']
            (initial_state (db (process_contacts blind_env ''u1'' [''c1''] (initial_state demo_db)))))
     = 0
   \<and> created (process_contacts blind_env ''u1'' [''c1'']
            (initial_state (db (process_contacts blind_env ''u1'' [''c1''] (initial_state demo_db)))))
     = 0"
  by code_simp

section \<open>Similarity search: the query and the call\<close>

lemma similar_rows_set:
  "(ce, c) \<in> set (similar_rows E d A q t) \<longleftrightarrow>
     ce \<in> set (contact_embeddings d) \<and> c \<in> set (contacts d) \<and> ce_contact_id ce = c_id c \<and>
     ce_user_id ce = A \<and> deleted_at c = None \<and> 1 - cosine_distance E (embedding ce) q \<ge> t"
  by (auto simp: similar_rows_def)

lemma similar_rows_sorted:
  "sorted (map (\<lambda>(ce, c). cosine_distance E (embedding ce) q) (similar_rows E d A q t))"
  by (simp add: similar_rows_def)

lemma similarity_select_list:
  "similarity (select_list E q row) = 1 - (case row of (ce, c) \<Rightarrow> cosine_distance E (embedding ce) q)"
  by (simp add: select_list_def split: prod.splits)

lemma descending_of_ascending:
  fixes f :: "'a \<Rightarrow> real"
  shows "sorted (map f xs) \<Longrightarrow> sorted_wrt (\<ge>) (map (\<lambda>x. 1 - f x) xs)"
  by (induction xs) auto

text \<open>
  What the query selects: rows at or above the threshold, in descending order of
  similarity, at most \<open>LIMIT\<close> of them.
\<close>

lemma similar_query_threshold_order_limit:
  assumes "similar_query E d p_user_id q p_limit t = Inr ms"
  shows "(\<forall>m \<in> set ms. similarity m \<ge> t \<and>
            (\<exists>ce \<in> set (contact_embeddings d).
               similarity m = 1 - cosine_distance E (embedding ce) q))
       \<and> sorted_wrt (\<ge>) (map similarity ms)
       \<and> int (length ms) \<le> p_limit"
proof -
  let ?rows = "take (nat p_limit) (similar_rows E d p_user_id q t)"
  from assms have lim: "0 \<le> p_limit" and ms: "ms = map (select_list E q) ?rows"
    by (auto simp: similar_query_def split: if_splits)
  have "similarity m \<ge> t \<and>
            (\<exists>ce \<in> set (contact_embeddings d).
               similarity m = 1 - cosine_distance E (embedding ce) q)" if "m \<in> set ms" for m
  proof -
    from that ms obtain row where row: "row \<in> set ?rows" "m = select_list E q row" by auto
    obtain ce c where cec: "row = (ce, c)" by (cases row)
    from row(1) have "row \<in> set (similar_rows E d p_user_id q t)" by (rule in_set_takeD)
    with cec have "ce \<in> set (contact_embeddings d)"
      "1 - cosine_distance E (embedding ce) q \<ge> t"
      by (simp_all add: similar_rows_set)
    with row(2) cec show ?thesis by (auto simp: similarity_select_list)
  qed
  moreover have "sorted_wrt (\<ge>) (map similarity ms)"
  proof -
    let ?f = "\<lambda>(ce, c). cosine_distance E (embedding ce) q"
    have "sorted (map ?f ?rows)"
      using similar_rows_sorted [of E q d p_user_id t]
      by (simp add: take_map [symmetric])
    then have "sorted_wrt (\<ge>) (map (\<lambda>x. 1 - ?f x) ?rows)" by (rule descending_of_ascending)
    moreover have "map similarity ms = map (\<lambda>x. 1 - ?f x) ?rows"
      by (simp add: ms similarity_select_list)
    ultimately show ?thesis by simp
  qed
  moreover have "int (length ms) \<le> p_limit"
    using lim by (simp add: ms)
  ultimately show ?thesis by blast
qed

text \<open>
  What the query selects under a scope: rows read off pairs of a stored embedding and
  its contact in which the embedding carries that scope id and the contact is not
  soft-deleted.
\<close>

lemma similar_query_scope:
  assumes "similar_query E d A q p_limit t = Inr ms"
  shows "\<exists>rows. ms = map (select_list E q) rows \<and>
           (\<forall>(ce, c) \<in> set rows.
              ce \<in> set (contact_embeddings d) \<and> c \<in> set (contacts d) \<and>
              ce_contact_id ce = c_id c \<and> ce_user_id ce = A \<and> deleted_at c = None)"
proof -
  let ?rows = "take (nat p_limit) (similar_rows E d A q t)"
  from assms have ms: "ms = map (select_list E q) ?rows"
    by (auto simp: similar_query_def split: if_splits)
  have "\<forall>(ce, c) \<in> set ?rows.
              ce \<in> set (contact_embeddings d) \<and> c \<in> set (contacts d) \<and>
              ce_contact_id ce = c_id c \<and> ce_user_id ce = A \<and> deleted_at c = None"
    using similar_rows_set [of _ _ E d A q t] by (auto dest!: in_set_takeD)
  with ms show ?thesis by blast
qed

lemma return_query_mismatch:
  "selected \<noteq> declared \<Longrightarrow>
   return_query declared selected rows
   = Inl ''structure of query does not match function result type''"
  by (simp add: return_query_def)

lemma similarity_column_mismatch: "query_columns \<noteq> returns_table"
  by (simp add: query_columns_def returns_table_def)

lemma find_similar_contacts_never_returns:
  "find_similar_contacts E d p_user_id q p_limit t
   = Inl ''structure of query does not match function result type''"
  unfolding find_similar_contacts_def
  using similarity_column_mismatch by (rule return_query_mismatch)

text \<open>So the edge function never answers a search with success.\<close>

lemma serve_semantic_search_never_succeeds:
  "status (fst (serve_semantic_search E d req)) \<noteq> 200"
  by (simp add: serve_semantic_search_def find_similar_contacts_never_returns Let_def
        split: option.split sum.split)



section \<open>Validation of the search query\<close>

text \<open>
  C9. A search request whose body has a \<open>query\<close> that is the empty string, absent, or
  not a string never reaches the embedding provider and never succeeds. Once the request
  is a POST of an authenticated caller, the response is the validation error, status 400
  with \<open>Query is required\<close>, which is not the success response with no results.
\<close>

theorem empty_query_rejected:
  assumes "json req = Inr b"
      and "\<forall>s. query b = String s \<longrightarrow> s = []"
  shows "snd (serve_semantic_search E d req) = []
       \<and> status (fst (serve_semantic_search E d req)) \<noteq> 200
       \<and> (req_method req = ''POST'' \<and> authorization req = Some h \<and> h \<noteq> [] \<and>
          getUser E (replace_first ''Bearer '' [] h) = Some u
          \<longrightarrow> fst (serve_semantic_search E d req)
                = \<lparr>status = 400, body = ErrorBody ''Query is required''\<rparr>)"
proof -
  have bad: "falsy (query b) \<or> typeof (query b) \<noteq> ''string''"
    using assms(2) by (cases "query b") (simp_all add: falsy_def typeof_def)
  show ?thesis
    using assms(1) bad
    by (auto simp: serve_semantic_search_def header_value_def split: option.split)
qed

theorem empty_query_rejected_witness:
  "serve_semantic_search demo_env demo_db (demo_search (String []))
     = (\<lparr>status = 400, body = ErrorBody ''Query is required''\<rparr>, [])
   \<and> serve_semantic_search demo_env demo_db (demo_search Undefined)
     = (\<lparr>status = 400, body = ErrorBody ''Query is required''\<rparr>, [])
   \<and> serve_semantic_search demo_env demo_db (demo_search (Number 7))
     = (\<lparr>status = 400, body = ErrorBody ''Query is required''\<rparr>, [])"
proof -
  have g: "getUser demo_env (replace_first ''Bearer '' [] ''Bearer t1'') = Some ''u1''"
    by (simp add: demo_env_def)
  have r: "serve_semantic_search demo_env demo_db (demo_search q)
     = (\<lparr>status = 400, body = ErrorBody ''Query is required''\<rparr>, [])"
    if "\<forall>s. q = String s \<longrightarrow> s = []" for q
  proof -
    have j: "json (demo_search q) = Inr \<lparr>query = q, limit = None, similarityThreshold = None\<rparr>"
      by (simp add: demo_search_def)
    have q: "\<forall>s. query \<lparr>query = q, limit = None, similarityThreshold = None\<rparr> = String s \<longrightarrow> s = []"
      using that by simp
    from empty_query_rejected [OF j q, of demo_env demo_db "''Bearer t1''" "''u1''"] g
    show ?thesis by (simp add: demo_search_def prod_eq_iff)
  qed
  show ?thesis by (simp add: r)
qed

section \<open>Composition and the existence of the contact\<close>

lemma join_with_nonempty: "x \<noteq> [] \<Longrightarrow> join_with sep (x # xs) \<noteq> []"
  by (cases xs) simp_all

lemma concat_ws_nonempty: "x \<noteq> [] \<Longrightarrow> concat_ws sep (Some x # args) \<noteq> []"
  by (simp add: concat_ws_def List.map_filter_def join_with_nonempty)

lemma absent_contact_rows:
  assumes "cid \<notin> set (map c_id (contacts d))"
  shows "contact_with_metadata d cid = []"
proof -
  from assms have "filter (\<lambda>c. c_id c = cid) (contacts d) = []"
    by (auto simp: filter_empty_conv)
  then show ?thesis by (simp add: contact_with_metadata_def)
qed

lemma absent_contact_notes_tags:
  assumes "references_contacts d" "cid \<notin> set (map c_id (contacts d))"
  shows "recent_notes d cid = []" "tag_names d cid = []"
proof -
  from assms have "filter (\<lambda>n. n_contact_id n = cid) (notes_table d) = []"
    by (auto simp: references_contacts_def list_all_iff filter_empty_conv)
  then show "recent_notes d cid = []" by (simp add: recent_notes_def)
  from assms have "filter (\<lambda>ct. ct_contact_id ct = cid) (contact_tags d) = []"
    by (auto simp: references_contacts_def list_all_iff filter_empty_conv)
  then show "tag_names d cid = []" by (simp add: tag_names_def)
qed

lemma content_absent:
  assumes "references_contacts d" "cid \<notin> set (map c_id (contacts d))"
  shows "generate_embedding_content d cid = []"
  by (simp add: generate_embedding_content_def absent_contact_rows [OF assms(2)]
        absent_contact_notes_tags [OF assms] string_agg_def concat_ws_def List.map_filter_def)

lemma content_present:
  assumes "contact_has_name d" "cid \<in> set (map c_id (contacts d))"
  shows "generate_embedding_content d cid \<noteq> []"
proof -
  from assms(2) obtain c0 where c0: "c0 \<in> set (contacts d)" "c_id c0 = cid" by auto
  then have "filter (\<lambda>c. c_id c = cid) (contacts d) \<noteq> []"
    by (auto simp: filter_empty_conv)
  then obtain c cs where f: "filter (\<lambda>c. c_id c = cid) (contacts d) = c # cs"
    by (cases "filter (\<lambda>c. c_id c = cid) (contacts d)") auto
  then have "c \<in> set (filter (\<lambda>c. c_id c = cid) (contacts d))" by simp
  then have "c \<in> set (contacts d)" by simp
  with assms(1) have name: "first_name c \<noteq> []"
    by (auto simp: contact_has_name_def list_all_iff)
  obtain cm rest where rows: "contact_with_metadata d cid = (c, cm) # rest"
    by (cases "filter (\<lambda>cm. cm_contact_id cm = c_id c) (contact_metadata d)")
       (auto simp: contact_with_metadata_def f)
  let ?v = "concat_ws '' '' [Some (first_name c), last_name c, company c, job_title c,
              how_we_met c, Option.bind cm location, Option.bind cm interests]"
  have "?v \<noteq> []" using name by (rule concat_ws_nonempty)
  then have "concat_ws '' '' [Some ?v, string_agg (recent_notes d cid) '' '',
               string_agg (tag_names d cid) '' ''] \<noteq> []"
    by (rule concat_ws_nonempty)
  then show ?thesis
    by (simp add: generate_embedding_content_def rows)
qed

text \<open>
  C8 (as amended). In a database whose notes and contact tags reference existing
  contacts, the content composed for an id that is no contact is empty, and the loop
  counts the id as skipped: the \<open>try\<close> block ends without throwing. Non-empty content
  is composed only for an existing contact, and for every existing contact when first
  names are not blank.
\<close>

theorem content_needs_contact:
  fixes s :: run_state
  assumes "references_contacts d"
  shows "(cid \<notin> set (map c_id (contacts d)) \<longrightarrow>
            generate_embedding_content d cid = [] \<and>
            (db s = d \<longrightarrow>
               try_block E userId cid s
               = Inr ((called (RpcCompose cid) s)\<lparr>skipped := skipped s + 1\<rparr>)))
       \<and> (generate_embedding_content d cid \<noteq> [] \<longrightarrow> cid \<in> set (map c_id (contacts d)))
       \<and> (contact_has_name d \<longrightarrow> cid \<in> set (map c_id (contacts d)) \<longrightarrow>
            generate_embedding_content d cid \<noteq> [])"
proof -
  have a: "generate_embedding_content d cid = []" if "cid \<notin> set (map c_id (contacts d))"
    using content_absent [OF assms that] .
  have b: "try_block E userId cid s = Inr ((called (RpcCompose cid) s)\<lparr>skipped := skipped s + 1\<rparr>)"
    if "cid \<notin> set (map c_id (contacts d))" "db s = d"
  proof (cases "rpc_fails E cid")
    case True
    then have "rpc_generate_embedding_content E (db s) cid = None"
      by (simp add: rpc_generate_embedding_content_def)
    then show ?thesis by (simp add: try_block_def called_def)
  next
    case False
    with a [OF that(1)] that(2) have "rpc_generate_embedding_content E (db s) cid = Some []"
      by (simp add: rpc_generate_embedding_content_def)
    then show ?thesis by (simp add: try_block_def called_def)
  qed
  from a b content_present [of d cid] show ?thesis by blast
qed

theorem content_needs_contact_witness:
  "generate_embedding_content demo_db ''c9'' = []
   \<and> try_block demo_env ''u1'' ''c9'' (initial_state demo_db)
     = Inr ((called (RpcCompose ''c9'') (initial_state demo_db))
              \<lparr>skipped := skipped (initial_state demo_db) + 1\<rparr>)
   \<and> generate_embedding_content demo_db ''c1'' = ''Al met at x''
   \<and> ''c1'' \<in> set (map c_id (contacts demo_db))"
proof -
  have r: "references_contacts demo_db"
    by (simp add: references_contacts_def demo_db_def demo_contact_def)
  have n: "''c9'' \<notin> set (map c_id (contacts demo_db))"
    by (simp add: demo_db_def demo_contact_def)
  have d: "db (initial_state demo_db) = demo_db"
    by (simp add: initial_state_def)
  note t9 = content_needs_contact [OF r, of "''c9''" "initial_state demo_db" demo_env "''u1''"]
  note t1 = content_needs_contact [OF r, of "''c1''" "initial_state demo_db" demo_env "''u1''"]
  from t9 n have a: "generate_embedding_content demo_db ''c9'' = []"
    by blast
  from t9 n d have b: "try_block demo_env ''u1'' ''c9'' (initial_state demo_db)
     = Inr ((called (RpcCompose ''c9'') (initial_state demo_db))
              \<lparr>skipped := skipped (initial_state demo_db) + 1\<rparr>)"
    by blast
  have c: "generate_embedding_content demo_db ''c1'' = ''Al met at x''"
    by (rule demo_content)
  then have "generate_embedding_content demo_db ''c1'' \<noteq> []"
    by simp
  with t1 have e: "''c1'' \<in> set (map c_id (contacts demo_db))"
    by blast
  from a b c e show ?thesis by (intro conjI)
qed

text \<open>
  The composition takes the contact id alone. For the soft-deleted contact \<open>c7\<close> and
  for \<open>c6\<close>, which is not the caller's, it returns their names, and a run of \<open>u1\<close> over
  the two ids skips neither.
\<close>

theorem composition_ignores_scope_counterexample:
  "map (\<lambda>c. (c_id c, c_user_id c, deleted_at c))
       (filter (\<lambda>c. c_id c = ''c7'' \<or> c_id c = ''c6'') (contacts demo_db))
     = [(''c6'', ''u2'', None), (''c7'', ''u1'', Some 5)]
   \<and> generate_embedding_content demo_db ''c7'' = ''Old''
   \<and> generate_embedding_content demo_db ''c6'' = ''Zed''
   \<and> skipped (process_contacts demo_env ''u1'' [''c7'', ''c6''] (initial_state demo_db)) = 0
   \<and> created (process_contacts demo_env ''u1'' [''c7'', ''c6''] (initial_state demo_db)) = 2"
  by code_simp

section \<open>The scope id of a stored embedding\<close>

text \<open>Without a contact id in the request, the ids are contacts of the caller, not deleted.\<close>

lemma batch_ids_owned:
  assumes "contactId b = None \<or> contactId b = Some []"
      and "cid \<in> set (select_contactIds E d userId b)"
  shows "\<exists>c \<in> set (contacts d). c_id c = cid \<and> c_user_id c = userId \<and> deleted_at c = None"
proof -
  from assms have "cid \<in> set (map c_id (take (case batchSize b of None \<Rightarrow> 50 | Some n \<Rightarrow> n)
                  (filter (\<lambda>c. c_user_id c = userId \<and> deleted_at c = None) (contacts d))))"
    by (auto simp: select_contactIds_def split: if_splits)
  then obtain c where "c \<in> set (filter (\<lambda>c. c_user_id c = userId \<and> deleted_at c = None) (contacts d))"
    "c_id c = cid"
    by (auto dest!: in_set_takeD)
  then show ?thesis by auto
qed

text \<open>
  C7. The caller \<open>u1\<close> asks for the embedding of the single contact \<open>c6\<close>, which belongs
  to \<open>u2\<close>. The handler answers 200 and stores a row for \<open>c6\<close> with scope id \<open>u1\<close>, while
  the contact is still owned by \<open>u2\<close>.
\<close>

theorem foreign_contact_embedded:
  "(case serve_generate_embeddings demo_env demo_db (demo_embed (Some ''c6'') ''t1'') of
      (resp, d', cs) \<Rightarrow>
        status resp = 200
        \<and> map (\<lambda>r. (ce_contact_id r, ce_user_id r)) (contact_embeddings d') = [(''c6'', ''u1'')]
        \<and> map (\<lambda>c. (c_id c, c_user_id c)) (filter (\<lambda>c. c_id c = ''c6'') (contacts d'))
            = [(''c6'', ''u2'')])"
  by code_simp


end
